theory Spec2Isabelle
  imports Complex_Main
begin

section \<open>Values, dictionaries and timestamps\<close>

text \<open>
  The service moves self-describing records between the transport layer and a document
  store. A record is a Python \<^verbatim>\<open>dict\<close> from field names to values; it is modelled as an
  association list that keeps the insertion order of the keys. Python floats are modelled
  as reals (exact arithmetic), Python's unbounded integers as \<open>int\<close>.
\<close>

record datetime =
  year :: nat
  month :: nat
  day :: nat
  hour :: nat
  minute :: nat
  second :: nat
  microsecond :: nat
  utcoffset :: "int option"  \<comment> \<open>offset from UTC in whole minutes; \<open>None\<close> for a naive timestamp\<close>

datatype pyval =
    VNull
  | VBool bool
  | VInt int
  | VFloat real
  | VStr string
  | VDatetime datetime
  | VObjectId string  \<comment> \<open>a store-assigned identifier, held as its hexadecimal text\<close>
  | VList "pyval list"
  | VDict "(string \<times> pyval) list"

type_synonym dict = "(string \<times> pyval) list"

text \<open>Truthiness of a value, as \<^verbatim>\<open>if v:\<close> tests it.\<close>

fun truthy :: "pyval \<Rightarrow> bool" where
  "truthy VNull = False"
| "truthy (VBool b) = b"
| "truthy (VInt i) = (i \<noteq> 0)"
| "truthy (VFloat r) = (r \<noteq> 0)"
| "truthy (VStr s) = (s \<noteq> [])"
| "truthy (VDatetime d) = True"
| "truthy (VObjectId h) = True"
| "truthy (VList xs) = (xs \<noteq> [])"
| "truthy (VDict kvs) = (kvs \<noteq> [])"

text \<open>
  \<^verbatim>\<open>str(v)\<close>. The text of an identifier is its hexadecimal form. The rendering of numbers,
  timestamps and containers is not part of this development: it is left unspecified, so
  nothing proved below depends on it.
\<close>

fun py_str :: "pyval \<Rightarrow> string" where
  "py_str (VObjectId h) = h"
| "py_str (VStr s) = s"
| "py_str VNull = ''None''"
| "py_str (VBool b) = (if b then ''True'' else ''False'')"
| "py_str v = undefined"

text \<open>\<^verbatim>\<open>d.get(k)\<close>: the value stored under \<open>k\<close>, \<^verbatim>\<open>None\<close> when the key is absent.\<close>

definition dict_get :: "dict \<Rightarrow> string \<Rightarrow> pyval" where
  "dict_get d k = (case map_of d k of None \<Rightarrow> VNull | Some v \<Rightarrow> v)"

text \<open>\<^verbatim>\<open>d[k] = v\<close>: an existing key keeps its position, a new key goes to the end.\<close>

fun dict_set :: "('k \<times> 'v) list \<Rightarrow> 'k \<Rightarrow> 'v \<Rightarrow> ('k \<times> 'v) list" where
  "dict_set [] k v = [(k, v)]"
| "dict_set ((k', v') # d) k v =
     (if k' = k then (k, v) # d else (k', v') # dict_set d k v)"

text \<open>\<^verbatim>\<open>d.pop(k)\<close> on a present key: the dictionary without the key.\<close>

definition dict_pop :: "('k \<times> 'v) list \<Rightarrow> 'k \<Rightarrow> ('k \<times> 'v) list" where
  "dict_pop d k = filter (\<lambda>kv. fst kv \<noteq> k) d"

subsection \<open>ISO-8601 rendering of a timestamp\<close>

definition digit :: "nat \<Rightarrow> char" where
  "digit n = ''0123456789'' ! (n mod 10)"

text \<open>The last \<open>w\<close> decimal digits of \<open>n\<close>, zero-padded: \<^verbatim>\<open>"%0wd" % n\<close> for \<open>n < 10 ^ w\<close>.\<close>

fun zfill :: "nat \<Rightarrow> nat \<Rightarrow> string" where
  "zfill 0 n = []"
| "zfill (Suc w) n = zfill w (n div 10) @ [digit n]"

definition isoformat :: "datetime \<Rightarrow> string" where
  "isoformat d =
     zfill 4 (year d) @ ''-'' @ zfill 2 (month d) @ ''-'' @ zfill 2 (day d) @ ''T'' @
     zfill 2 (hour d) @ '':'' @ zfill 2 (minute d) @ '':'' @ zfill 2 (second d) @
     (if microsecond d = 0 then [] else ''.'' @ zfill 6 (microsecond d)) @
     (case utcoffset d of
        None \<Rightarrow> []
      | Some m \<Rightarrow>
          (if m < 0 then ''-'' else ''+'') @
          zfill 2 (nat \<bar>m\<bar> div 60) @ '':'' @ zfill 2 (nat \<bar>m\<bar> mod 60))"

section \<open>The document store adapter\<close>

text \<open>
  The store holds, per collection name, the persisted documents in insertion order, and
  the counter from which the next identifier is drawn. A store that is not available
  fails every call.
\<close>

record store =
  available :: bool
  collections :: "string \<Rightarrow> dict list"
  next_oid :: nat

text \<open>
  A validation failure lists its violations, each with the path of the failing field.
  Every handler turns any exception it catches into \<^verbatim>\<open>HTTPException(status_code=500)\<close>,
  whose detail is the text of the exception; the model keeps the exception itself.
\<close>

datatype loc = Key string | Index nat

datatype violation =
    missing
  | string_type
  | int_type
  | float_type
  | datetime_type
  | dict_type
  | list_type
  | model_type
  | int_parsing
  | int_from_float
  | float_parsing
  | datetime_parsing
  | greater_than_equal real
  | less_than_equal real

type_synonym verror = "loc list \<times> violation"

datatype cause = StoreFailure string | KeyError string | InvalidModel "verror list"

datatype error =
    ValidationError "verror list"
  | HTTPException nat cause

text \<open>
  Modelled from the spec: the store supports equality filters on top-level fields. A
  record satisfies a filter when every key of the filter is present in it with that value.
\<close>

definition matches :: "dict \<Rightarrow> dict \<Rightarrow> bool" where
  "matches flt doc = list_all (\<lambda>kv. map_of doc (fst kv) = Some (snd kv)) flt"

text \<open>
  Modelled from the spec: \<^verbatim>\<open>get_documents\<close> of the adapter module \<^verbatim>\<open>database\<close>, which is
  not among the sources. \<^verbatim>\<open>query(collection_name, filter, limit)\<close> returns the ordered
  sequence of the records of the collection that satisfy the equality filter, in the
  store's insertion order, respecting the limit; passing no limit is unlimited. A store
  failure is reported with its message.
\<close>

definition get_documents :: "store \<Rightarrow> string \<Rightarrow> dict \<Rightarrow> int option \<Rightarrow> string + dict list" where
  "get_documents db coll flt limit =
     (if \<not> available db then Inl ''Database not available''
      else
        let found = filter (matches flt) (collections db coll)
        in Inr (case limit of None \<Rightarrow> found | Some n \<Rightarrow> take (nat n) found))"

section \<open>Clustering hand-off stub\<close>

record ClusterRequest =
  req_scenario :: "string option"
  req_k :: int

record ClusterResult =
  res_scenario :: "string option"
  res_k :: int
  labels :: "(string \<times> int) list"

text \<open>
  The filter that \<^verbatim>\<open>list_samples\<close> and \<^verbatim>\<open>cluster_trigger\<close> build:
  \<^verbatim>\<open>flt = {}; if scenario: flt["scenario"] = scenario\<close>. The test is Python truthiness of an
  optional string.
\<close>

definition scenario_filter :: "string option \<Rightarrow> dict" where
  "scenario_filter scenario =
     (case scenario of
        None \<Rightarrow> []
      | Some s \<Rightarrow> if truthy (VStr s) then dict_set [] ''scenario'' (VStr s) else [])"

text \<open>
  The loop over the retrieved documents: \<^verbatim>\<open>ids.append(str(d["_id"]))\<close> and the feature
  vector of the three core parameters. A document without \<^verbatim>\<open>_id\<close> raises \<^verbatim>\<open>KeyError\<close>.
\<close>

fun build_payload ::
  "dict list \<Rightarrow> string list \<Rightarrow> pyval list list \<Rightarrow> cause + (string list \<times> pyval list list)" where
  "build_payload [] ids payload = Inr (ids, payload)"
| "build_payload (d # ds) ids payload =
     (case map_of d ''_id'' of
        None \<Rightarrow> Inl (KeyError ''_id'')
      | Some v \<Rightarrow>
          build_payload ds (ids @ [py_str v])
            (payload @ [[dict_get d ''ph'', dict_get d ''dissolved_oxygen_mg_l'',
                         dict_get d ''turbidity_ntu'']]))"

text \<open>\<^verbatim>\<open>{ids[i]: int(i % max(1, k)) for i in range(len(ids))}\<close>\<close>

definition round_robin :: "string list \<Rightarrow> int \<Rightarrow> (string \<times> int) list" where
  "round_robin ids k =
     foldl (\<lambda>lbls i. dict_set lbls (ids ! i) (int i mod max 1 k)) [] [0..<length ids]"

definition cluster_trigger :: "store \<Rightarrow> ClusterRequest \<Rightarrow> error + ClusterResult" where
  "cluster_trigger db req =
     (case get_documents db ''watersample'' (scenario_filter (req_scenario req)) None of
        Inl e \<Rightarrow> Inl (HTTPException 500 (StoreFailure e))
      | Inr docs \<Rightarrow>
          (case build_payload docs [] [] of
             Inl e \<Rightarrow> Inl (HTTPException 500 e)
           | Inr (ids, payload) \<Rightarrow>
               Inr \<lparr>res_scenario = req_scenario req, res_k = req_k req,
                    labels = round_robin ids (req_k req)\<rparr>))"

section \<open>Query operation\<close>

text \<open>
  The inner loop of \<^verbatim>\<open>clean\<close>, over a snapshot of the items of a nested dictionary \<open>v\<close>:
  \<^verbatim>\<open>for kk, vv in list(v.items()): if isinstance(vv, datetime): v[kk] = vv.isoformat()\<close>.
\<close>

fun clean_inner :: "(string \<times> pyval) list \<Rightarrow> dict \<Rightarrow> dict" where
  "clean_inner [] v = v"
| "clean_inner ((kk, vv) # rest) v =
     clean_inner rest
       (case vv of VDatetime t \<Rightarrow> dict_set v kk (VStr (isoformat t)) | _ \<Rightarrow> v)"

text \<open>
  The outer loop, over a snapshot of the items of the document. A timestamp is replaced
  by its text; a nested dictionary is updated in place, which the document sees under
  the same key. Lists are not inspected.
\<close>

fun clean_items :: "(string \<times> pyval) list \<Rightarrow> dict \<Rightarrow> dict" where
  "clean_items [] doc = doc"
| "clean_items ((k, v) # rest) doc =
     clean_items rest
       (case v of
          VDatetime t \<Rightarrow> dict_set doc k (VStr (isoformat t))
        | VDict inner \<Rightarrow> dict_set doc k (VDict (clean_inner inner inner))
        | _ \<Rightarrow> doc)"

text \<open>
  \<^verbatim>\<open>doc["id"] = str(doc.pop("_id")) if doc.get("_id") else None\<close>, then the loop over
  \<^verbatim>\<open>list(doc.items())\<close>.
\<close>

definition clean :: "dict \<Rightarrow> dict" where
  "clean doc =
     (let doc1 =
        (if truthy (dict_get doc ''_id'')
         then dict_set (dict_pop doc ''_id'') ''id'' (VStr (py_str (dict_get doc ''_id'')))
         else dict_set doc ''id'' VNull)
      in clean_items doc1 doc1)"

record ListResponse =
  items :: "dict list"
  count :: nat

definition list_samples :: "store \<Rightarrow> string option \<Rightarrow> int option \<Rightarrow> error + ListResponse" where
  "list_samples db scenario limit =
     (case get_documents db ''watersample'' (scenario_filter scenario) limit of
        Inl e \<Rightarrow> Inl (HTTPException 500 (StoreFailure e))
      | Inr docs \<Rightarrow>
          let cleaned = map clean docs
          in Inr \<lparr>items = cleaned, count = length cleaned\<rparr>)"

text \<open>
  A call of the operation with its defaults, \<^verbatim>\<open>scenario = None\<close> and \<^verbatim>\<open>limit = 200\<close>: an
  argument that the caller omits is \<open>None\<close> here, a supplied one is \<open>Some\<close> of its value
  (for \<open>limit\<close>, a value that may itself be \<^verbatim>\<open>None\<close>).
\<close>

definition list_samples_call ::
  "store \<Rightarrow> string option \<Rightarrow> int option option \<Rightarrow> error + ListResponse" where
  "list_samples_call db scenario_arg limit_arg =
     list_samples db scenario_arg (case limit_arg of None \<Rightarrow> Some 200 | Some l \<Rightarrow> l)"

text \<open>
  What the normalisation does to a value: a timestamp becomes its ISO-8601
  text, a dictionary has the timestamps among its own entries replaced, and every other
  value, a list with all it holds among them, is left as it is.
\<close>

definition iso_leaf :: "pyval \<Rightarrow> pyval" where
  "iso_leaf v = (case v of VDatetime t \<Rightarrow> VStr (isoformat t) | _ \<Rightarrow> v)"

definition iso_value :: "pyval \<Rightarrow> pyval" where
  "iso_value v =
     (case v of
        VDatetime t \<Rightarrow> VStr (isoformat t)
      | VDict inner \<Rightarrow> VDict (map (\<lambda>kv. (fst kv, iso_leaf (snd kv))) inner)
      | _ \<Rightarrow> v)"

text \<open>
  The keys of a Python dictionary are pairwise distinct; for a record this is required
  of the record and of the dictionaries that are its values.
\<close>

definition dict_ok :: "dict \<Rightarrow> bool" where
  "dict_ok d =
     (distinct (map fst d) \<and>
      list_all (\<lambda>kv. case snd kv of VDict inner \<Rightarrow> distinct (map fst inner) | _ \<Rightarrow> True) d)"

text \<open>The records that a limit lets through.\<close>

definition limited :: "int option \<Rightarrow> 'a list \<Rightarrow> 'a list" where
  "limited limit xs = (case limit of None \<Rightarrow> xs | Some n \<Rightarrow> take (nat n) xs)"

subsection \<open>The operation on objects\<close>

text \<open>
  \<^verbatim>\<open>clean\<close> rewrites the dictionaries it is given in place, and the answer of the operation
  holds those same dictionaries. To follow this across calls, the process is given a
  state: the store, and the dictionary objects alive in the process, each at its address.
\<close>

type_synonym addr = nat

record world =
  database :: store
  objects :: "addr \<Rightarrow> dict"
  next_addr :: addr

text \<open>
  Modelled from the spec: \<^verbatim>\<open>get_documents\<close> of the adapter module \<^verbatim>\<open>database\<close>, as a step
  of the process. The adapter is a thin pass-through to an external document database, so
  the records that a query returns are read from it: every call hands the caller new
  objects, one per record and in the order of the records, that hold the records'
  contents. The store is not changed.
\<close>

fun alloc_all :: "dict list \<Rightarrow> world \<Rightarrow> addr list \<times> world" where
  "alloc_all [] w = ([], w)"
| "alloc_all (d # ds) w =
     (case alloc_all ds (w\<lparr>objects := (objects w)(next_addr w := d),
                            next_addr := Suc (next_addr w)\<rparr>) of
        (refs, w') \<Rightarrow> (next_addr w # refs, w'))"

definition get_documents_op ::
  "world \<Rightarrow> string \<Rightarrow> dict \<Rightarrow> int option \<Rightarrow> (string + addr list) \<times> world" where
  "get_documents_op w coll flt limit =
     (case get_documents (database w) coll flt limit of
        Inl e \<Rightarrow> (Inl e, w)
      | Inr docs \<Rightarrow> (case alloc_all docs w of (refs, w') \<Rightarrow> (Inr refs, w')))"

text \<open>
  \<^verbatim>\<open>clean(d)\<close> on the object at an address: the object is rewritten where it is, and the
  same reference is returned. \<^verbatim>\<open>[clean(d) for d in docs]\<close> does so for each reference in
  turn. The dictionaries nested in a record are held inside the record's object: records
  read from the store share none.
\<close>

definition clean_at :: "addr \<Rightarrow> world \<Rightarrow> world" where
  "clean_at a w = w\<lparr>objects := (objects w)(a := clean (objects w a))\<rparr>"

fun clean_all :: "addr list \<Rightarrow> world \<Rightarrow> world" where
  "clean_all [] w = w"
| "clean_all (a # refs) w = clean_all refs (clean_at a w)"

text \<open>The answer \<^verbatim>\<open>{"items": cleaned, "count": len(cleaned)}\<close>, holding references.\<close>

record ListRefs =
  item_refs :: "addr list"
  ref_count :: nat

definition list_samples_op ::
  "world \<Rightarrow> string option \<Rightarrow> int option \<Rightarrow> (error + ListRefs) \<times> world" where
  "list_samples_op w scenario limit =
     (case get_documents_op w ''watersample'' (scenario_filter scenario) limit of
        (Inl e, w') \<Rightarrow> (Inl (HTTPException 500 (StoreFailure e)), w')
      | (Inr docs, w') \<Rightarrow>
          (Inr \<lparr>item_refs = docs, ref_count = length docs\<rparr>, clean_all docs w'))"

text \<open>What an answer reads as in a state: the contents of the objects it refers to.\<close>

definition answer :: "world \<Rightarrow> error + ListRefs \<Rightarrow> error + ListResponse" where
  "answer w r =
     map_sum id (\<lambda>x. \<lparr>items = map (objects w) (item_refs x), count = ref_count x\<rparr>) r"

section \<open>Sample record model\<close>

record Location =
  lat :: real
  lon :: real

record SampleFile =
  filename :: string
  url :: "string option"
  content_type :: "string option"
  file_size :: "int option"

record WaterSample =
  scenario :: string
  site_name :: "string option"
  collected_at :: datetime
  location :: Location
  ph :: "real option"
  dissolved_oxygen_mg_l :: "real option"
  turbidity_ntu :: "real option"
  metals_mg_l :: "(string \<times> real) list option"
  notes_text :: "string option"
  files :: "SampleFile list option"

text \<open>
  Validation of a candidate against the declared fields. The result of a validator is
  the validated value or the list of its violations.

  The candidate is a dictionary of values that the transport layer has parsed. The
  validation library works in its lax mode: a Boolean is accepted as the number 1 or 0,
  and text that spells a number or a timestamp is converted.
\<close>

type_synonym 'a validated = "verror list + 'a"

text \<open>
  Modelled from the spec: the validation of a model, which is the validation library's and
  not among the sources. It produces either the validated value or a validation failure
  enumerating every violated field constraint, not just the first. Two results are
  combined by \<open>ap\<close>, which keeps the violations of both sides, so that a model reports the
  violations of all its fields, in the order of declaration; \<open>at_loc\<close> puts the violations
  of a field under the path of the field.
\<close>

definition ap :: "('a \<Rightarrow> 'b) validated \<Rightarrow> 'a validated \<Rightarrow> 'b validated" where
  "ap f x =
     (case f of
        Inr g \<Rightarrow> (case x of Inr a \<Rightarrow> Inr (g a) | Inl e \<Rightarrow> Inl e)
      | Inl e1 \<Rightarrow> (case x of Inr a \<Rightarrow> Inl e1 | Inl e2 \<Rightarrow> Inl (e1 @ e2)))"

definition at_loc :: "loc \<Rightarrow> 'a validated \<Rightarrow> 'a validated" where
  "at_loc l r =
     (case r of Inl es \<Rightarrow> Inl (map (\<lambda>e. (l # fst e, snd e)) es) | Inr a \<Rightarrow> Inr a)"

text \<open>
  The library's conversions from text to a number, and from text, a number or a Boolean to
  a timestamp, are not part of this development: they are left unspecified, so nothing
  proved below depends on them.
\<close>

definition parse_float :: "string \<Rightarrow> real option" where
  "parse_float = undefined"

definition parse_int :: "string \<Rightarrow> int option" where
  "parse_int = undefined"

definition lax_datetime :: "pyval \<Rightarrow> violation + datetime" where
  "lax_datetime = undefined"

definition str_value :: "pyval \<Rightarrow> string validated" where
  "str_value v = (case v of VStr s \<Rightarrow> Inr s | _ \<Rightarrow> Inl [([], string_type)])"

text \<open>
  An integer field: an integer, a Boolean, a float without a fractional part, or text
  that spells an integer.
\<close>

definition int_value :: "pyval \<Rightarrow> int validated" where
  "int_value v =
     (case v of
        VInt i \<Rightarrow> Inr i
      | VBool b \<Rightarrow> Inr (if b then 1 else 0)
      | VFloat r \<Rightarrow> if r = of_int \<lfloor>r\<rfloor> then Inr \<lfloor>r\<rfloor> else Inl [([], int_from_float)]
      | VStr s \<Rightarrow> (case parse_int s of None \<Rightarrow> Inl [([], int_parsing)] | Some i \<Rightarrow> Inr i)
      | _ \<Rightarrow> Inl [([], int_type)])"

text \<open>
  A timestamp field: a timestamp, or the library's conversion of text, of a number or of
  a Boolean; a value of any other kind is a type violation.
\<close>

definition datetime_value :: "pyval \<Rightarrow> datetime validated" where
  "datetime_value v =
     (case v of
        VDatetime t \<Rightarrow> Inr t
      | VNull \<Rightarrow> Inl [([], datetime_type)]
      | VObjectId h \<Rightarrow> Inl [([], datetime_type)]
      | VList xs \<Rightarrow> Inl [([], datetime_type)]
      | VDict kvs \<Rightarrow> Inl [([], datetime_type)]
      | _ \<Rightarrow> (case lax_datetime v of Inl e \<Rightarrow> Inl [([], e)] | Inr t \<Rightarrow> Inr t))"

text \<open>
  The number that a numeric value denotes. An integer denotes a float only within the
  range of a double: the conversion of an integer of magnitude \<open>2 ^ 1024 - 2 ^ 970\<close> or
  more overflows. (No integer of the document store is that large.)
\<close>

definition double_limit :: int where
  "double_limit = 2 ^ 1024 - 2 ^ 970"

definition number :: "pyval \<Rightarrow> real option" where
  "number v =
     (case v of
        VInt i \<Rightarrow> if \<bar>i\<bar> < double_limit then Some (of_int i) else None
      | VFloat r \<Rightarrow> Some r
      | _ \<Rightarrow> None)"

text \<open>The float that the input of a float field is taken for, in lax mode.\<close>

definition float_input :: "pyval \<Rightarrow> violation + real" where
  "float_input v =
     (case v of
        VBool b \<Rightarrow> Inr (if b then 1 else 0)
      | VStr s \<Rightarrow> (case parse_float s of None \<Rightarrow> Inl float_parsing | Some r \<Rightarrow> Inr r)
      | _ \<Rightarrow> (case number v of None \<Rightarrow> Inl float_type | Some r \<Rightarrow> Inr r))"

text \<open>The optional bounds \<^verbatim>\<open>ge\<close> and \<^verbatim>\<open>le\<close> of a declaration, checked in this order.\<close>

definition in_bounds :: "real option \<Rightarrow> real option \<Rightarrow> real \<Rightarrow> real validated" where
  "in_bounds ge le r =
     (case ge of
        Some g \<Rightarrow> if r < g then Inl [([], greater_than_equal g)] else
          (case le of
             Some l \<Rightarrow> if l < r then Inl [([], less_than_equal l)] else Inr r
           | None \<Rightarrow> Inr r)
      | None \<Rightarrow>
          (case le of
             Some l \<Rightarrow> if l < r then Inl [([], less_than_equal l)] else Inr r
           | None \<Rightarrow> Inr r))"

text \<open>A float field with the optional bounds of its declaration.\<close>

definition float_value :: "real option \<Rightarrow> real option \<Rightarrow> pyval \<Rightarrow> real validated" where
  "float_value ge le v =
     (case float_input v of
        Inl e \<Rightarrow> Inl [([], e)]
      | Inr r \<Rightarrow> in_bounds ge le r)"

text \<open>A field declared with \<^verbatim>\<open>...\<close> is required; an \<^verbatim>\<open>Optional\<close> one defaults to \<^verbatim>\<open>None\<close>.\<close>

definition required :: "string \<Rightarrow> (pyval \<Rightarrow> 'a validated) \<Rightarrow> dict \<Rightarrow> 'a validated" where
  "required k validator c =
     (case map_of c k of
        None \<Rightarrow> Inl [([Key k], missing)]
      | Some v \<Rightarrow> at_loc (Key k) (validator v))"

definition optional :: "string \<Rightarrow> (pyval \<Rightarrow> 'a validated) \<Rightarrow> dict \<Rightarrow> 'a option validated" where
  "optional k validator c =
     (case map_of c k of
        None \<Rightarrow> Inr None
      | Some VNull \<Rightarrow> Inr None
      | Some v \<Rightarrow> at_loc (Key k) (map_sum id Some (validator v)))"

definition Location_value :: "pyval \<Rightarrow> Location validated" where
  "Location_value v =
     (case v of
        VDict d \<Rightarrow>
          ap (ap (Inr (\<lambda>a b. \<lparr>lat = a, lon = b\<rparr>))
            (required ''lat'' (float_value (Some (- 90)) (Some 90)) d))
            (required ''lon'' (float_value (Some (- 180)) (Some 180)) d)
      | _ \<Rightarrow> Inl [([], model_type)])"

definition SampleFile_value :: "pyval \<Rightarrow> SampleFile validated" where
  "SampleFile_value v =
     (case v of
        VDict d \<Rightarrow>
          ap (ap (ap (ap (Inr (\<lambda>a b c e. \<lparr>filename = a, url = b, content_type = c, file_size = e\<rparr>))
            (required ''filename'' str_value d))
            (optional ''url'' str_value d))
            (optional ''content_type'' str_value d))
            (optional ''size'' int_value d)
      | _ \<Rightarrow> Inl [([], model_type)])"

fun metals_items :: "dict \<Rightarrow> (string \<times> real) list validated" where
  "metals_items [] = Inr []"
| "metals_items ((k, v) # d) =
     ap (ap (Inr (\<lambda>x xs. (k, x) # xs)) (at_loc (Key k) (float_value None None v))) (metals_items d)"

definition metals_value :: "pyval \<Rightarrow> (string \<times> real) list validated" where
  "metals_value v = (case v of VDict d \<Rightarrow> metals_items d | _ \<Rightarrow> Inl [([], dict_type)])"

fun files_items :: "nat \<Rightarrow> pyval list \<Rightarrow> SampleFile list validated" where
  "files_items i [] = Inr []"
| "files_items i (v # vs) =
     ap (ap (Inr (\<lambda>x xs. x # xs)) (at_loc (Index i) (SampleFile_value v))) (files_items (Suc i) vs)"

definition files_value :: "pyval \<Rightarrow> SampleFile list validated" where
  "files_value v = (case v of VList vs \<Rightarrow> files_items 0 vs | _ \<Rightarrow> Inl [([], list_type)])"

definition make_WaterSample ::
  "string \<Rightarrow> string option \<Rightarrow> datetime \<Rightarrow> Location \<Rightarrow> real option \<Rightarrow> real option \<Rightarrow>
   real option \<Rightarrow> (string \<times> real) list option \<Rightarrow> string option \<Rightarrow> SampleFile list option \<Rightarrow>
   WaterSample" where
  "make_WaterSample a b c d e f g h i j =
     \<lparr>scenario = a, site_name = b, collected_at = c, location = d, ph = e,
      dissolved_oxygen_mg_l = f, turbidity_ntu = g, metals_mg_l = h, notes_text = i, files = j\<rparr>"

definition validate_WaterSample :: "dict \<Rightarrow> WaterSample validated" where
  "validate_WaterSample c =
     ap (ap (ap (ap (ap (ap (ap (ap (ap (ap (Inr make_WaterSample)
       (required ''scenario'' str_value c))
       (optional ''site_name'' str_value c))
       (required ''collected_at'' datetime_value c))
       (required ''location'' Location_value c))
       (optional ''ph'' (float_value (Some 0) (Some 14)) c))
       (optional ''dissolved_oxygen_mg_l'' (float_value (Some 0) None) c))
       (optional ''turbidity_ntu'' (float_value (Some 0) None) c))
       (optional ''metals_mg_l'' metals_value c))
       (optional ''notes'' str_value c))
       (optional ''files'' files_value c)"

text \<open>
  The violations of a result, and the violations of a candidate as the declaration of
  \<^verbatim>\<open>WaterSample\<close> lists them: those of each field on its own, field after field.
\<close>

definition errors :: "'a validated \<Rightarrow> verror list" where
  "errors r = (case r of Inl es \<Rightarrow> es | Inr a \<Rightarrow> [])"

definition violations :: "dict \<Rightarrow> verror list" where
  "violations c =
     errors (required ''scenario'' str_value c) @
     errors (optional ''site_name'' str_value c) @
     errors (required ''collected_at'' datetime_value c) @
     errors (required ''location'' Location_value c) @
     errors (optional ''ph'' (float_value (Some 0) (Some 14)) c) @
     errors (optional ''dissolved_oxygen_mg_l'' (float_value (Some 0) None) c) @
     errors (optional ''turbidity_ntu'' (float_value (Some 0) None) c) @
     errors (optional ''metals_mg_l'' metals_value c) @
     errors (optional ''notes'' str_value c) @
     errors (optional ''files'' files_value c)"







section \<open>Ingestion operation\<close>

text \<open>The stored form of a validated sample: every declared field, \<^verbatim>\<open>None\<close> where unset.\<close>

definition opt_value :: "('a \<Rightarrow> pyval) \<Rightarrow> 'a option \<Rightarrow> pyval" where
  "opt_value f x = (case x of None \<Rightarrow> VNull | Some a \<Rightarrow> f a)"

definition SampleFile_dump :: "SampleFile \<Rightarrow> pyval" where
  "SampleFile_dump f =
     VDict [(''filename'', VStr (filename f)), (''url'', opt_value VStr (url f)),
            (''content_type'', opt_value VStr (content_type f)),
            (''size'', opt_value VInt (file_size f))]"

definition WaterSample_dump :: "WaterSample \<Rightarrow> dict" where
  "WaterSample_dump s =
     [(''scenario'', VStr (scenario s)),
      (''site_name'', opt_value VStr (site_name s)),
      (''collected_at'', VDatetime (collected_at s)),
      (''location'', VDict [(''lat'', VFloat (lat (location s))),
                            (''lon'', VFloat (lon (location s)))]),
      (''ph'', opt_value VFloat (ph s)),
      (''dissolved_oxygen_mg_l'', opt_value VFloat (dissolved_oxygen_mg_l s)),
      (''turbidity_ntu'', opt_value VFloat (turbidity_ntu s)),
      (''metals_mg_l'',
         opt_value (\<lambda>m. VDict (map (\<lambda>kv. (fst kv, VFloat (snd kv))) m)) (metals_mg_l s)),
      (''notes'', opt_value VStr (notes_text s)),
      (''files'', opt_value (\<lambda>fs. VList (map SampleFile_dump fs)) (files s))]"

text \<open>
  Modelled from the spec: the string form of a system-assigned identifier, here the last
  \<open>w\<close> hexadecimal digits of the store's counter, zero-padded.
\<close>

definition hex_digit :: "nat \<Rightarrow> char" where
  "hex_digit n = ''0123456789abcdef'' ! (n mod 16)"

fun hexfill :: "nat \<Rightarrow> nat \<Rightarrow> string" where
  "hexfill 0 n = []"
| "hexfill (Suc w) n = hexfill w (n div 16) @ [hex_digit n]"

text \<open>
  Modelled from the spec: \<^verbatim>\<open>create_document\<close> of the adapter module \<^verbatim>\<open>database\<close>, which is
  not among the sources. \<^verbatim>\<open>insert(collection_name, record)\<close> persists the record under a
  system-assigned identifier, distinct from the application fields, and returns the
  identifier in string form. Identifiers are drawn from the store's counter, as 24
  hexadecimal digits.
\<close>

definition create_document :: "store \<Rightarrow> string \<Rightarrow> WaterSample \<Rightarrow> string + (string \<times> store)" where
  "create_document db coll data =
     (if \<not> available db then Inl ''Database not available''
      else
        let oid = VObjectId (hexfill 24 (next_oid db));
            doc = (''_id'', oid) # WaterSample_dump data
        in Inr (py_str oid,
                db\<lparr>collections := (collections db)(coll := collections db coll @ [doc]),
                   next_oid := Suc (next_oid db)\<rparr>))"

record IngestResponse =
  ingest_id :: string
  status :: string

text \<open>The handler \<^verbatim>\<open>create_sample\<close>, which receives a validated sample.\<close>

definition create_sample :: "store \<Rightarrow> WaterSample \<Rightarrow> (error + IngestResponse) \<times> store" where
  "create_sample db sample =
     (case create_document db ''watersample'' sample of
        Inl e \<Rightarrow> (Inl (HTTPException 500 (StoreFailure e)), db)
      | Inr (inserted_id, db') \<Rightarrow> (Inr \<lparr>ingest_id = inserted_id, status = ''created''\<rparr>, db'))"

text \<open>
  The operation as the transport layer runs it: the body is validated against the
  declared parameter type \<^verbatim>\<open>sample: WaterSample\<close>, and the handler runs only on a
  validated sample.
\<close>

definition post_samples :: "store \<Rightarrow> dict \<Rightarrow> (error + IngestResponse) \<times> store" where
  "post_samples db candidate =
     (case validate_WaterSample candidate of
        Inl errs \<Rightarrow> (Inl (ValidationError errs), db)
      | Inr sample \<Rightarrow> create_sample db sample)"

section \<open>Summary aggregation\<close>

text \<open>
  The pipeline that \<^verbatim>\<open>get_summaries\<close> hands to the store: a \<^verbatim>\<open>$group\<close> stage keyed by a
  field, with \<^verbatim>\<open>{"$sum": c}\<close> and \<^verbatim>\<open>{"$avg": "$field"}\<close> accumulators, and a \<^verbatim>\<open>$project\<close>
  stage whose entries exclude a field (\<^verbatim>\<open>0\<close>), include it (\<^verbatim>\<open>1\<close>) or copy another
  field (\<^verbatim>\<open>"$field"\<close>).
\<close>

datatype accumulator = Sum_const int | Avg_field string

datatype projection = Exclude | Include | Field_ref string

datatype stage =
    Group string "(string \<times> accumulator) list"
  | Project "(string \<times> projection) list"

definition summary_pipeline :: "stage list" where
  "summary_pipeline =
     [Group ''scenario''
        [(''count'', Sum_const 1),
         (''avg_ph'', Avg_field ''ph''),
         (''avg_do'', Avg_field ''dissolved_oxygen_mg_l''),
         (''avg_turbidity'', Avg_field ''turbidity_ntu'')],
      Project
        [(''_id'', Exclude),
         (''scenario'', Field_ref ''_id''),
         (''count'', Include),
         (''avg_ph'', Include),
         (''avg_do'', Include),
         (''avg_turbidity'', Include)]]"

text \<open>
  Modelled from the spec: the store's evaluation of a pipeline, which is not among the
  sources (\<open>group_keys\<close>, \<open>avg_step\<close>, \<open>accumulate\<close>, \<open>project\<close>, \<open>run_stage\<close> and
  \<open>aggregate\<close> below). The groups are keyed by the distinct values of the grouping field,
  here in the order of their first record; the design asks for no order, only for a
  deterministic answer.
\<close>

fun group_keys :: "pyval list \<Rightarrow> pyval list" where
  "group_keys [] = []"
| "group_keys (k # ks) = k # filter (\<lambda>k'. k' \<noteq> k) (group_keys ks)"

text \<open>
  One step of the running average of a field over a group: a record whose value is a
  number adds to the sum and to the count, a record whose value is null, absent or
  not a number adds to neither.
\<close>

definition avg_step :: "string \<Rightarrow> real \<times> nat \<Rightarrow> dict \<Rightarrow> real \<times> nat" where
  "avg_step f acc d =
     (case number (dict_get d f) of
        None \<Rightarrow> acc
      | Some x \<Rightarrow> (fst acc + x, Suc (snd acc)))"

definition accumulate :: "accumulator \<Rightarrow> dict list \<Rightarrow> pyval" where
  "accumulate a g =
     (case a of
        Sum_const c \<Rightarrow> VInt (foldl (\<lambda>n d. n + c) 0 g)
      | Avg_field f \<Rightarrow>
          (let acc = foldl (avg_step f) (0, 0) g
           in if snd acc = 0 then VNull else VFloat (fst acc / real (snd acc))))"

definition project :: "(string \<times> projection) list \<Rightarrow> dict \<Rightarrow> dict" where
  "project spec doc =
     filter (\<lambda>kv. case map_of spec (fst kv) of
                     None \<Rightarrow> fst kv = ''_id''
                   | Some Include \<Rightarrow> True
                   | Some p \<Rightarrow> False) doc @
     concat (map (\<lambda>np. case snd np of
                          Field_ref f \<Rightarrow>
                            (case map_of doc f of None \<Rightarrow> [] | Some v \<Rightarrow> [(fst np, v)])
                        | p \<Rightarrow> []) spec)"

definition run_stage :: "stage \<Rightarrow> dict list \<Rightarrow> dict list" where
  "run_stage st docs =
     (case st of
        Group key accs \<Rightarrow>
          map (\<lambda>k. (''_id'', k) #
                    map (\<lambda>na. (fst na, accumulate (snd na)
                                          (filter (\<lambda>d. dict_get d key = k) docs))) accs)
            (group_keys (map (\<lambda>d. dict_get d key) docs))
      | Project spec \<Rightarrow> map (project spec) docs)"

text \<open>
  Modelled from the spec: \<^verbatim>\<open>aggregate\<close> of the store handle \<^verbatim>\<open>db\<close> of the adapter module
  \<^verbatim>\<open>database\<close>, which is not among the sources. It runs the stages of the pipeline over
  all records of the collection. A group has one entry per accumulator: a count of its
  records, or the average of a field over only the values present in the group, null
  when there is none; a record without the grouping field belongs to the group of the
  null key.
\<close>

definition aggregate :: "store \<Rightarrow> string \<Rightarrow> stage list \<Rightarrow> string + dict list" where
  "aggregate db coll pipeline =
     (if \<not> available db then Inl ''Database not available''
      else Inr (foldl (\<lambda>docs st. run_stage st docs) (collections db coll) pipeline))"

record ScenarioSummary =
  s_scenario :: string
  s_count :: int
  avg_ph :: "real option"
  avg_do :: "real option"
  avg_turbidity :: "real option"

text \<open>\<^verbatim>\<open>ScenarioSummary(**r)\<close>: the construction validates the fields of the result.\<close>

definition ScenarioSummary_value :: "dict \<Rightarrow> ScenarioSummary validated" where
  "ScenarioSummary_value r =
     ap (ap (ap (ap (ap
       (Inr (\<lambda>a b c d e. \<lparr>s_scenario = a, s_count = b, avg_ph = c, avg_do = d,
                         avg_turbidity = e\<rparr>))
       (required ''scenario'' str_value r))
       (required ''count'' int_value r))
       (optional ''avg_ph'' (float_value None None) r))
       (optional ''avg_do'' (float_value None None) r))
       (optional ''avg_turbidity'' (float_value None None) r)"

text \<open>\<^verbatim>\<open>[ScenarioSummary(**r) for r in results]\<close>: the first failure ends the comprehension.\<close>

fun summaries :: "dict list \<Rightarrow> ScenarioSummary list validated" where
  "summaries [] = Inr []"
| "summaries (r # rs) =
     (case ScenarioSummary_value r of
        Inl e \<Rightarrow> Inl e
      | Inr s \<Rightarrow> (case summaries rs of Inl e \<Rightarrow> Inl e | Inr ss \<Rightarrow> Inr (s # ss)))"

definition get_summaries :: "store \<Rightarrow> error + ScenarioSummary list" where
  "get_summaries db =
     (case aggregate db ''watersample'' summary_pipeline of
        Inl e \<Rightarrow> Inl (HTTPException 500 (StoreFailure e))
      | Inr results \<Rightarrow>
          (case summaries results of
             Inl e \<Rightarrow> Inl (HTTPException 500 (InvalidModel e))
           | Inr ss \<Rightarrow> Inr ss))"

text \<open>
  The arithmetic mean of the numbers among the values of a field, null and absent values
  left out; there is no mean when no number is left.
\<close>

definition numbers :: "pyval list \<Rightarrow> real list" where
  "numbers vs = List.map_filter number vs"

definition mean_present :: "pyval list \<Rightarrow> real option" where
  "mean_present vs =
     (if numbers vs = [] then None
      else Some (sum_list (numbers vs) / real (length (numbers vs))))"

text \<open>The records of a scenario, and the values of a field over a list of records.\<close>

definition scenario_group :: "store \<Rightarrow> string \<Rightarrow> dict list" where
  "scenario_group db s =
     filter (\<lambda>d. dict_get d ''scenario'' = VStr s) (collections db ''watersample'')"

definition field_values :: "string \<Rightarrow> dict list \<Rightarrow> pyval list" where
  "field_values f g = map (\<lambda>d. dict_get d f) g"

text \<open>
  The summary of a scenario as the design describes it: the number of its records and,
  for each of the three parameters, the mean of the values present in the group. The
  scenarios of a store are the scenario names of its records, each once, in the order of
  their first record.
\<close>

definition has_scenario :: "dict \<Rightarrow> bool" where
  "has_scenario d = (case dict_get d ''scenario'' of VStr s \<Rightarrow> True | _ \<Rightarrow> False)"

definition scenario_name :: "pyval \<Rightarrow> string option" where
  "scenario_name k = (case k of VStr s \<Rightarrow> Some s | _ \<Rightarrow> None)"

definition scenario_names :: "store \<Rightarrow> string list" where
  "scenario_names db =
     List.map_filter scenario_name
       (group_keys (map (\<lambda>d. dict_get d ''scenario'') (collections db ''watersample'')))"

definition summary_of :: "store \<Rightarrow> string \<Rightarrow> ScenarioSummary" where
  "summary_of db s =
     \<lparr>s_scenario = s,
      s_count = int (length (scenario_group db s)),
      avg_ph = mean_present (field_values ''ph'' (scenario_group db s)),
      avg_do = mean_present (field_values ''dissolved_oxygen_mg_l'' (scenario_group db s)),
      avg_turbidity = mean_present (field_values ''turbidity_ntu'' (scenario_group db s))\<rparr>"

text \<open>The result that the pipeline yields for the group of a key.\<close>

definition group_result :: "dict list \<Rightarrow> pyval \<Rightarrow> dict" where
  "group_result docs k =
     (let g = filter (\<lambda>d. dict_get d ''scenario'' = k) docs
      in [(''count'', VInt (int (length g))),
          (''avg_ph'', opt_value VFloat (mean_present (field_values ''ph'' g))),
          (''avg_do'', opt_value VFloat (mean_present (field_values ''dissolved_oxygen_mg_l'' g))),
          (''avg_turbidity'', opt_value VFloat (mean_present (field_values ''turbidity_ntu'' g))),
          (''scenario'', k)])"

section \<open>Example data\<close>

definition demo_doc :: "string \<Rightarrow> string \<Rightarrow> pyval \<Rightarrow> dict" where
  "demo_doc oid sc phv = [(''_id'', VObjectId oid), (''scenario'', VStr sc), (''ph'', phv)]"

definition demo_store :: store where
  "demo_store =
     \<lparr>available = True,
      collections = (\<lambda>c. if c = ''watersample'' then
         [demo_doc ''01'' ''a'' (VFloat 6), demo_doc ''02'' ''a'' (VFloat 8),
          demo_doc ''03'' ''a'' VNull, demo_doc ''04'' ''dry'' (VFloat 7),
          demo_doc ''05'' ''dry'' VNull, demo_doc ''06'' ''monsoon'' (VInt 5),
          demo_doc ''07'' ''monsoon'' (VFloat 9)] else []),
      next_oid = 8\<rparr>"

definition demo_time :: datetime where
  "demo_time =
     \<lparr>year = 2024, month = 3, day = 9, hour = 7, minute = 5, second = 0, microsecond = 0,
      utcoffset = Some 0\<rparr>"

text \<open>A candidate that satisfies every constraint, with the given scenario and pH.\<close>

definition demo_candidate :: "string \<Rightarrow> pyval \<Rightarrow> dict" where
  "demo_candidate sc phv =
     [(''scenario'', VStr sc), (''collected_at'', VDatetime demo_time),
      (''location'', VDict [(''lat'', VFloat 12), (''lon'', VInt 77)]),
      (''ph'', phv)]"

text \<open>A store of 201 records of one scenario.\<close>

definition big_store :: store where
  "big_store =
     \<lparr>available = True,
      collections = (\<lambda>c. if c = ''watersample'' then
         map (\<lambda>n. demo_doc (hexfill 24 n) ''dry'' VNull) [0..<201] else []),
      next_oid = 201\<rparr>"

text \<open>A stored record with a timestamp at the top level, in a dictionary and in a list.\<close>

definition demo_record :: dict where
  "demo_record =
     [(''_id'', VObjectId ''01''), (''scenario'', VStr ''dry''),
      (''collected_at'', VDatetime demo_time),
      (''location'', VDict [(''lat'', VFloat 12), (''surveyed'', VDatetime demo_time)]),
      (''files'', VList [VDict [(''uploaded_at'', VDatetime demo_time)]])]"

text \<open>A process that holds no object yet, and two successive calls of the query in it.\<close>

definition demo_world :: world where
  "demo_world = \<lparr>database = demo_store, objects = (\<lambda>a. []), next_addr = 0\<rparr>"

definition demo_first :: "(error + ListRefs) \<times> world" where
  "demo_first = list_samples_op demo_world (Some ''dry'') None"

definition demo_second :: "(error + ListRefs) \<times> world" where
  "demo_second = list_samples_op (snd demo_first) (Some ''dry'') None"


section \<open>Facts about the validators\<close>

lemma small_below_double_limit: "\<bar>i\<bar> < 1000000 \<Longrightarrow> \<bar>i\<bar> < double_limit"
proof -
  have "(1000000::int) \<le> 2 ^ 970"
    by simp
  moreover have "(2::int) ^ 970 \<le> 2 ^ 1024 - 2 ^ 970"
    by simp
  ultimately have "(1000000::int) \<le> double_limit"
    unfolding double_limit_def by linarith
  then show "\<bar>i\<bar> < 1000000 \<Longrightarrow> \<bar>i\<bar> < double_limit"
    by linarith
qed

lemma number_VFloat: "number (VFloat r) = Some r"
  by (simp add: number_def)

lemma number_VInt_small: "\<bar>i\<bar> < 1000000 \<Longrightarrow> number (VInt i) = Some (of_int i)"
  by (simp add: number_def small_below_double_limit)

lemma number_VNull: "number VNull = None"
  by (simp add: number_def)

lemma float_value_number: "number v = Some x \<Longrightarrow> float_value ge le v = in_bounds ge le x"
  by (cases v) (simp_all add: float_value_def float_input_def number_def)

lemma float_value_VFloat: "float_value ge le (VFloat r) = in_bounds ge le r"
  by (rule float_value_number) (rule number_VFloat)

lemma float_value_VInt_small:
  "\<bar>i\<bar> < 1000000 \<Longrightarrow> float_value ge le (VInt i) = in_bounds ge le (of_int i)"
  by (rule float_value_number) (rule number_VInt_small)

lemma float_value_VNull: "float_value ge le VNull = Inl [([], float_type)]"
  by (simp add: float_value_def float_input_def number_def)

lemma datetime_value_VDatetime: "datetime_value (VDatetime t) = Inr t"
  by (simp add: datetime_value_def)

lemma int_value_VInt: "int_value (VInt i) = Inr i"
  by (simp add: int_value_def)

section \<open>Properties of the clustering stub\<close>

lemma dict_set_fresh: "k \<notin> fst ` set d \<Longrightarrow> dict_set d k v = d @ [(k, v)]"
  by (induction d) auto

lemma foldl_dict_set_distinct:
  "distinct (map fst kvs) \<Longrightarrow> fst ` set kvs \<inter> fst ` set acc = {} \<Longrightarrow>
   foldl (\<lambda>d kv. dict_set d (fst kv) (snd kv)) acc kvs = acc @ kvs"
proof (induction kvs arbitrary: acc)
  case Nil
  then show ?case by simp
next
  case (Cons kv kvs)
  have fresh: "fst kv \<notin> fst ` set acc" using Cons.prems(2) by auto
  have step: "dict_set acc (fst kv) (snd kv) = acc @ [kv]"
    using dict_set_fresh [OF fresh, of "snd kv"] by simp
  have "fst ` set kvs \<inter> fst ` set (acc @ [kv]) = {}"
    using Cons.prems by auto
  with Cons.IH [of "acc @ [kv]"] Cons.prems(1) step show ?case by simp
qed

lemma round_robin_distinct:
  assumes "distinct ids"
  shows "round_robin ids k = map (\<lambda>i. (ids ! i, int i mod max 1 k)) [0..<length ids]"
proof -
  let ?kvs = "map (\<lambda>i. (ids ! i, int i mod max 1 k)) [0..<length ids]"
  have keys: "map fst ?kvs = ids"
    by (simp add: comp_def map_nth)
  have "round_robin ids k = foldl (\<lambda>d kv. dict_set d (fst kv) (snd kv)) [] ?kvs"
    by (simp add: round_robin_def foldl_map)
  also have "\<dots> = [] @ ?kvs"
    using assms keys by (intro foldl_dict_set_distinct) simp_all
  finally show ?thesis by simp
qed

lemma build_payload_ids:
  "list_all (\<lambda>d. map_of d ''_id'' \<noteq> None) docs \<Longrightarrow>
   \<exists>payload. build_payload docs ids0 p0 =
     Inr (ids0 @ map (\<lambda>d. py_str (dict_get d ''_id'')) docs, payload)"
proof (induction docs arbitrary: ids0 p0)
  case Nil
  then show ?case by simp
next
  case (Cons d ds)
  then obtain v where v: "map_of d ''_id'' = Some v" by auto
  from Cons.prems have "list_all (\<lambda>d. map_of d ''_id'' \<noteq> None) ds" by simp
  from Cons.IH [OF this, of "ids0 @ [py_str v]"
      "p0 @ [[dict_get d ''ph'', dict_get d ''dissolved_oxygen_mg_l'', dict_get d ''turbidity_ntu'']]"]
  obtain payload where
    "build_payload ds (ids0 @ [py_str v])
       (p0 @ [[dict_get d ''ph'', dict_get d ''dissolved_oxygen_mg_l'', dict_get d ''turbidity_ntu'']]) =
     Inr ((ids0 @ [py_str v]) @ map (\<lambda>d. py_str (dict_get d ''_id'')) ds, payload)"
    by blast
  with v show ?case
    by (simp add: dict_get_def)
qed

lemma dict_set_values:
  "list_all (\<lambda>kv. P (snd kv)) d \<Longrightarrow> P v \<Longrightarrow> list_all (\<lambda>kv. P (snd kv)) (dict_set d k v)"
  by (induction d) auto

lemma foldl_dict_set_values:
  "list_all (\<lambda>kv. P (snd kv)) acc \<Longrightarrow> (\<And>i. P (g i)) \<Longrightarrow>
   list_all (\<lambda>kv. P (snd kv)) (foldl (\<lambda>d i. dict_set d (f i) (g i)) acc xs)"
  by (induction xs arbitrary: acc) (simp_all add: dict_set_values)

lemma round_robin_floor:
  "k \<le> 0 \<Longrightarrow> list_all (\<lambda>kv. snd kv = 0) (round_robin ids k)"
  unfolding round_robin_def
  by (rule foldl_dict_set_values) (simp_all add: max_def)

text \<open>
  Claim C2. For every scenario filter and every integer \<open>k\<close>, the stub answers, and its
  labels list the retrieved records in retrieval order, the \<open>i\<close>-th one (from 0) under its
  identifier with the label \<open>i mod k\<close> when \<open>k \<ge> 1\<close> and with the label 0 when \<open>k \<le> 0\<close>, as if
  \<open>k\<close> were 1. The retrieved records carry the pairwise distinct identifiers that the
  store assigned. With \<open>k = 3\<close> and 7 records the labels are 0, 1, 2, 0, 1, 2, 0.
\<close>

theorem cluster_labels_round_robin:
  assumes "get_documents db ''watersample'' (scenario_filter (req_scenario req)) None = Inr docs"
    and "list_all (\<lambda>d. map_of d ''_id'' \<noteq> None) docs"
    and "distinct (map (\<lambda>d. py_str (dict_get d ''_id'')) docs)"
  shows "\<exists>res. cluster_trigger db req = Inr res \<and>
           labels res =
             map (\<lambda>i. (py_str (dict_get (docs ! i) ''_id''),
                        if 1 \<le> req_k req then int i mod req_k req else 0))
               [0..<length docs]"
proof -
  let ?ids = "map (\<lambda>d. py_str (dict_get d ''_id'')) docs"
  from build_payload_ids [OF assms(2), of "[]" "[]"]
  obtain payload where bp: "build_payload docs [] [] = Inr (?ids, payload)"
    by auto
  have run: "cluster_trigger db req =
      Inr \<lparr>res_scenario = req_scenario req, res_k = req_k req,
           labels = round_robin ?ids (req_k req)\<rparr>"
    by (simp add: cluster_trigger_def assms(1) bp)
  have "round_robin ?ids (req_k req) =
      map (\<lambda>i. (?ids ! i, int i mod max 1 (req_k req))) [0..<length ?ids]"
    by (rule round_robin_distinct [OF assms(3)])
  also have "\<dots> = map (\<lambda>i. (py_str (dict_get (docs ! i) ''_id''),
                        if 1 \<le> req_k req then int i mod req_k req else 0))
               [0..<length docs]"
    by (auto simp: max_def)
  finally show ?thesis using run by simp
qed

lemma demo_all:
  "get_documents demo_store ''watersample'' (scenario_filter None) None =
     Inr (collections demo_store ''watersample'')"
  by (simp add: get_documents_def scenario_filter_def matches_def demo_store_def)

theorem cluster_labels_round_robin_witness:
  "get_documents demo_store ''watersample'' (scenario_filter None) None =
     Inr (collections demo_store ''watersample'') \<and>
   list_all (\<lambda>d. map_of d ''_id'' \<noteq> None) (collections demo_store ''watersample'') \<and>
   distinct (map (\<lambda>d. py_str (dict_get d ''_id'')) (collections demo_store ''watersample'')) \<and>
   (\<exists>res. cluster_trigger demo_store \<lparr>req_scenario = None, req_k = 3\<rparr> = Inr res \<and>
      labels res = [(''01'', 0), (''02'', 1), (''03'', 2), (''04'', 0), (''05'', 1),
                    (''06'', 2), (''07'', 0)]) \<and>
   (\<exists>res. cluster_trigger demo_store \<lparr>req_scenario = None, req_k = 0\<rparr> = Inr res \<and>
      labels res = [(''01'', 0), (''02'', 0), (''03'', 0), (''04'', 0), (''05'', 0),
                    (''06'', 0), (''07'', 0)])"
proof -
  let ?docs = "collections demo_store ''watersample''"
  have h1: "list_all (\<lambda>d. map_of d ''_id'' \<noteq> None) ?docs"
    by (simp add: demo_store_def demo_doc_def)
  have h2: "distinct (map (\<lambda>d. py_str (dict_get d ''_id'')) ?docs)"
    by (simp add: demo_store_def demo_doc_def dict_get_def)
  have len: "[0..<length ?docs] = [0, 1, 2, 3, 4, 5, 6]"
    by (simp add: demo_store_def upt_rec)
  have a: "get_documents demo_store ''watersample''
       (scenario_filter (req_scenario \<lparr>req_scenario = None, req_k = 3\<rparr>)) None = Inr ?docs"
    using demo_all by simp
  have b: "get_documents demo_store ''watersample''
       (scenario_filter (req_scenario \<lparr>req_scenario = None, req_k = 0\<rparr>)) None = Inr ?docs"
    using demo_all by simp
  from cluster_labels_round_robin [OF a h1 h2] cluster_labels_round_robin [OF b h1 h2]
  show ?thesis
    unfolding len using demo_all h1 h2
    by (simp add: demo_store_def demo_doc_def dict_get_def)
qed

text \<open>
  Claim C10. For every input \<open>k\<close>, also \<open>k \<le> 0\<close>, the answer of the stub reports \<open>k\<close> as it
  was given: the floor to 1 is applied only where the labels are computed, so that an
  answer can report a non-positive \<open>k\<close> while all its labels are 0.
\<close>

theorem cluster_reports_input_k:
  assumes "get_documents db ''watersample'' (scenario_filter (req_scenario req)) None = Inr docs"
    and "list_all (\<lambda>d. map_of d ''_id'' \<noteq> None) docs"
  shows "\<exists>res. cluster_trigger db req = Inr res \<and> res_k res = req_k req \<and>
           (req_k req \<le> 0 \<longrightarrow> list_all (\<lambda>kv. snd kv = 0) (labels res))"
proof -
  from build_payload_ids [OF assms(2), of "[]" "[]"]
  obtain ids payload where bp: "build_payload docs [] [] = Inr (ids, payload)"
    by auto
  show ?thesis
    by (simp add: cluster_trigger_def assms(1) bp round_robin_floor)
qed

theorem cluster_reports_input_k_witness:
  "\<exists>res. cluster_trigger demo_store \<lparr>req_scenario = Some ''dry'', req_k = - 2\<rparr> = Inr res \<and>
     res_k res = - 2 \<and> labels res = [(''04'', 0), (''05'', 0)]"
proof -
  let ?req = "\<lparr>req_scenario = Some ''dry'', req_k = - 2\<rparr>"
  let ?docs = "[demo_doc ''04'' ''dry'' (VFloat 7), demo_doc ''05'' ''dry'' VNull]"
  have a: "get_documents demo_store ''watersample'' (scenario_filter (req_scenario ?req)) None =
      Inr ?docs"
    by (simp add: get_documents_def scenario_filter_def matches_def demo_store_def demo_doc_def)
  have b: "list_all (\<lambda>d. map_of d ''_id'' \<noteq> None) ?docs"
    by (simp add: demo_doc_def)
  have run: "cluster_trigger demo_store ?req =
      Inr \<lparr>res_scenario = Some ''dry'', res_k = - 2, labels = [(''04'', 0), (''05'', 0)]\<rparr>"
    using a
    by (simp add: cluster_trigger_def demo_doc_def dict_get_def round_robin_def upt_rec)
  from cluster_reports_input_k [OF a b] show ?thesis
    using run by simp
qed

section \<open>Properties of the query operation\<close>

subsection \<open>The filter and the limit\<close>

lemma matches_scenario_filter:
  "matches (scenario_filter sc) =
     (\<lambda>d. case sc of None \<Rightarrow> True | Some s \<Rightarrow> s = [] \<or> dict_get d ''scenario'' = VStr s)"
  by (rule ext) (auto simp: matches_def scenario_filter_def dict_get_def split: option.splits)

lemma list_samples_items:
  "available db \<Longrightarrow>
   map_sum id items (list_samples db sc limit) =
     Inr (map clean (limited limit (filter (matches (scenario_filter sc))
                                          (collections db ''watersample''))))"
  by (simp add: list_samples_def get_documents_def limited_def Let_def)

lemma isoformat_demo_time: "isoformat demo_time = ''2024-03-09T07:05:00+00:00''"
  by code_simp

lemma demo_dry_items:
  "map_sum id items (list_samples demo_store (Some ''dry'') None) =
     Inr [[(''scenario'', VStr ''dry''), (''ph'', VFloat 7), (''id'', VStr ''04'')],
          [(''scenario'', VStr ''dry''), (''ph'', VNull), (''id'', VStr ''05'')]]"
  by (simp add: list_samples_def get_documents_def scenario_filter_def matches_def demo_store_def
      demo_doc_def clean_def dict_get_def dict_pop_def)

text \<open>
  Claim C4, as the code has it. The store filter \<open>{scenario: value}\<close> is built exactly
  when the scenario parameter is supplied with a non-empty value, and the results are
  then the records whose scenario equals that value; an omitted parameter and a supplied
  empty string both build the empty filter, which restricts nothing.
\<close>

theorem query_filter_when_nonempty:
  assumes "available db"
  shows "(sc = Some s \<and> s \<noteq> [] \<longrightarrow>
            scenario_filter sc = [(''scenario'', VStr s)] \<and>
            map_sum id items (list_samples db sc limit) =
              Inr (map clean (limited limit
                     (filter (\<lambda>d. dict_get d ''scenario'' = VStr s)
                             (collections db ''watersample''))))) \<and>
         (sc = None \<or> sc = Some [] \<longrightarrow>
            scenario_filter sc = [] \<and>
            map_sum id items (list_samples db sc limit) =
              Inr (map clean (limited limit (collections db ''watersample''))))"
proof (intro conjI impI)
  assume "sc = Some s \<and> s \<noteq> []"
  then show "scenario_filter sc = [(''scenario'', VStr s)]"
    by (simp add: scenario_filter_def)
next
  assume "sc = Some s \<and> s \<noteq> []"
  then show "map_sum id items (list_samples db sc limit) =
      Inr (map clean (limited limit
             (filter (\<lambda>d. dict_get d ''scenario'' = VStr s) (collections db ''watersample''))))"
    using list_samples_items [OF assms, of sc limit]
    by (simp add: matches_scenario_filter)
next
  assume "sc = None \<or> sc = Some []"
  then show "scenario_filter sc = []"
    by (auto simp: scenario_filter_def)
next
  assume "sc = None \<or> sc = Some []"
  then show "map_sum id items (list_samples db sc limit) =
      Inr (map clean (limited limit (collections db ''watersample'')))"
    using list_samples_items [OF assms, of sc limit]
    by (auto simp: matches_scenario_filter)
qed

theorem query_filter_when_nonempty_witness:
  "available demo_store \<and>
   scenario_filter (Some ''dry'') = [(''scenario'', VStr ''dry'')] \<and>
   map_sum id items (list_samples demo_store (Some ''dry'') None) =
     Inr [[(''scenario'', VStr ''dry''), (''ph'', VFloat 7), (''id'', VStr ''04'')],
          [(''scenario'', VStr ''dry''), (''ph'', VNull), (''id'', VStr ''05'')]]"
proof -
  have a: "available demo_store"
    by (simp add: demo_store_def)
  from query_filter_when_nonempty [OF a, of "Some ''dry''" "''dry''" None]
  show ?thesis
    using a demo_dry_items by simp
qed

text \<open>
  The claim as stated fails for a supplied empty string: no filter is built, and the seven
  records of the example store are returned although none has the empty scenario.
\<close>

theorem query_empty_scenario_counterexample:
  "scenario_filter (Some []) = [] \<and>
   map_sum id count (list_samples demo_store (Some []) None) = Inr 7 \<and>
   scenario_group demo_store [] = []"
  by (simp add: list_samples_def get_documents_def scenario_filter_def matches_def demo_store_def
      demo_doc_def dict_get_def scenario_group_def)

text \<open>
  Claim C6, as the code has it. A call of the query operation that supplies no limit runs
  with the default limit 200 and returns the first 200 matching records at most; the
  result is unlimited, every matching record being returned, only when the limit is passed
  as \<^verbatim>\<open>None\<close>.
\<close>

theorem query_default_limit:
  assumes "available db"
  shows "list_samples_call db sc None = list_samples db sc (Some 200) \<and>
         map_sum id items (list_samples_call db sc None) =
           Inr (map clean (take 200 (filter (matches (scenario_filter sc))
                                            (collections db ''watersample'')))) \<and>
         map_sum id items (list_samples_call db sc (Some None)) =
           Inr (map clean (filter (matches (scenario_filter sc))
                                  (collections db ''watersample'')))"
  using list_samples_items [OF assms, of sc "Some 200"] list_samples_items [OF assms, of sc None]
  by (simp add: list_samples_call_def limited_def)

theorem query_default_limit_witness:
  "available demo_store \<and>
   list_samples_call demo_store (Some ''dry'') None = list_samples demo_store (Some ''dry'') (Some 200) \<and>
   map_sum id items (list_samples_call demo_store (Some ''dry'') None) =
     Inr [[(''scenario'', VStr ''dry''), (''ph'', VFloat 7), (''id'', VStr ''04'')],
          [(''scenario'', VStr ''dry''), (''ph'', VNull), (''id'', VStr ''05'')]]"
proof -
  have a: "available demo_store"
    by (simp add: demo_store_def)
  have b: "map_sum id items (list_samples_call demo_store (Some ''dry'') None) =
     Inr [[(''scenario'', VStr ''dry''), (''ph'', VFloat 7), (''id'', VStr ''04'')],
          [(''scenario'', VStr ''dry''), (''ph'', VNull), (''id'', VStr ''05'')]]"
    by (simp add: list_samples_call_def list_samples_def get_documents_def scenario_filter_def
        matches_def demo_store_def demo_doc_def clean_def dict_get_def dict_pop_def)
  from query_default_limit [OF a, of "Some ''dry''"] show ?thesis
    using a b by simp
qed

text \<open>
  The claim as stated fails on a store of 201 matching records: the call without a limit
  returns 200 of them.
\<close>

theorem query_unlimited_counterexample:
  "map_sum id count (list_samples_call big_store None None) = Inr 200 \<and>
   length (filter (matches (scenario_filter None)) (collections big_store ''watersample'')) = 201"
  by (simp add: list_samples_call_def list_samples_def get_documents_def scenario_filter_def
      matches_def big_store_def)

subsection \<open>The normalisation of a record\<close>

lemma dict_set_at:
  "k \<notin> fst ` set xs \<Longrightarrow> dict_set (xs @ (k, v) # ys) k x = xs @ (k, x) # ys"
  by (induction xs) auto

lemma clean_inner_step:
  "kk \<notin> fst ` set pre \<Longrightarrow>
   (case vv of VDatetime t \<Rightarrow> dict_set (pre @ (kk, vv) # rest) kk (VStr (isoformat t))
            | _ \<Rightarrow> pre @ (kk, vv) # rest) =
   pre @ (kk, iso_leaf vv) # rest"
  by (cases vv) (simp_all add: iso_leaf_def dict_set_at)

lemma clean_inner_map_gen:
  "distinct (map fst (pre @ rest)) \<Longrightarrow>
   clean_inner rest (map (\<lambda>kv. (fst kv, iso_leaf (snd kv))) pre @ rest) =
   map (\<lambda>kv. (fst kv, iso_leaf (snd kv))) (pre @ rest)"
proof (induction rest arbitrary: pre)
  case Nil
  then show ?case by simp
next
  case (Cons a rest)
  obtain kk vv where a: "a = (kk, vv)" by (cases a)
  let ?f = "\<lambda>kv. (fst kv, iso_leaf (snd kv))"
  have fresh: "kk \<notin> fst ` set (map ?f pre)"
    using Cons.prems a by (auto simp: image_iff)
  have d: "distinct (map fst ((pre @ [a]) @ rest))"
    using Cons.prems by simp
  have "clean_inner (a # rest) (map ?f pre @ a # rest) =
        clean_inner rest (map ?f pre @ (kk, iso_leaf vv) # rest)"
    using clean_inner_step [OF fresh, of vv rest] a by simp
  also have "\<dots> = clean_inner rest (map ?f (pre @ [a]) @ rest)"
    using a by simp
  also have "\<dots> = map ?f ((pre @ [a]) @ rest)"
    by (rule Cons.IH [OF d])
  finally show ?case by simp
qed

lemma clean_inner_map:
  "distinct (map fst v) \<Longrightarrow> clean_inner v v = map (\<lambda>kv. (fst kv, iso_leaf (snd kv))) v"
  using clean_inner_map_gen [of "[]" v] by simp

lemma clean_items_step:
  assumes "k \<notin> fst ` set pre"
    and "case v of VDict inner \<Rightarrow> distinct (map fst inner) | _ \<Rightarrow> True"
  shows "(case v of
            VDatetime t \<Rightarrow> dict_set (pre @ (k, v) # rest) k (VStr (isoformat t))
          | VDict inner \<Rightarrow> dict_set (pre @ (k, v) # rest) k (VDict (clean_inner inner inner))
          | _ \<Rightarrow> pre @ (k, v) # rest) =
         pre @ (k, iso_value v) # rest"
  using assms
  by (cases v) (simp_all add: iso_value_def dict_set_at clean_inner_map)

lemma clean_items_map_gen:
  "dict_ok (pre @ rest) \<Longrightarrow>
   clean_items rest (map (\<lambda>kv. (fst kv, iso_value (snd kv))) pre @ rest) =
   map (\<lambda>kv. (fst kv, iso_value (snd kv))) (pre @ rest)"
proof (induction rest arbitrary: pre)
  case Nil
  then show ?case by simp
next
  case (Cons a rest)
  obtain k v where a: "a = (k, v)" by (cases a)
  let ?f = "\<lambda>kv. (fst kv, iso_value (snd kv))"
  have fresh: "k \<notin> fst ` set (map ?f pre)"
    using Cons.prems a by (auto simp: dict_ok_def image_iff)
  have inner: "case v of VDict inner \<Rightarrow> distinct (map fst inner) | _ \<Rightarrow> True"
    using Cons.prems a by (simp add: dict_ok_def)
  have ok: "dict_ok ((pre @ [a]) @ rest)"
    using Cons.prems by simp
  have "clean_items (a # rest) (map ?f pre @ a # rest) =
        clean_items rest (map ?f pre @ (k, iso_value v) # rest)"
    using clean_items_step [OF fresh inner, of rest] a by simp
  also have "\<dots> = clean_items rest (map ?f (pre @ [a]) @ rest)"
    using a by simp
  also have "\<dots> = map ?f ((pre @ [a]) @ rest)"
    by (rule Cons.IH [OF ok])
  finally show ?case by simp
qed

lemma clean_items_map:
  "dict_ok d \<Longrightarrow> clean_items d d = map (\<lambda>kv. (fst kv, iso_value (snd kv))) d"
  using clean_items_map_gen [of "[]" d] by simp

lemma map_of_dict_set:
  "map_of (dict_set d k v) k' = (if k' = k then Some v else map_of d k')"
  by (induction d) auto

lemma map_of_dict_pop:
  "map_of (dict_pop d k) k' = (if k' = k then None else map_of d k')"
  by (induction d) (auto simp: dict_pop_def)

lemma keys_dict_set: "fst ` set (dict_set d k v) = insert k (fst ` set d)"
proof (induction d)
  case Nil
  then show ?case by simp
next
  case (Cons a d)
  then show ?case by (cases a) (simp add: insert_commute)
qed

lemma distinct_dict_set: "distinct (map fst d) \<Longrightarrow> distinct (map fst (dict_set d k v))"
  by (induction d) (auto simp: keys_dict_set)

lemma dict_ok_set:
  assumes "dict_ok d" and "case v of VDict inner \<Rightarrow> distinct (map fst inner) | _ \<Rightarrow> True"
  shows "dict_ok (dict_set d k v)"
  using assms
    dict_set_values [of "\<lambda>v. case v of VDict inner \<Rightarrow> distinct (map fst inner) | _ \<Rightarrow> True" d v k]
  by (simp add: dict_ok_def distinct_dict_set)

lemma dict_ok_pop: "dict_ok d \<Longrightarrow> dict_ok (dict_pop d k)"
  by (simp add: dict_ok_def dict_pop_def distinct_map_filter list_all_iff)

lemma map_of_map_value:
  "map_of (map (\<lambda>kv. (fst kv, g (snd kv))) d) k = map_option g (map_of d k)"
  by (induction d) auto

text \<open>
  Claim C5, as the code has it. For every record that the query operation returns, the
  store-assigned identifier is removed from \<^verbatim>\<open>_id\<close> and given, as a string, in the public
  field \<^verbatim>\<open>id\<close>; in every other field a timestamp, and a timestamp that is an entry of a
  dictionary-valued field, is rendered as its ISO-8601 string, and every other value is
  passed through unchanged. A list is such a value: timestamps inside list entries are
  not rendered.
\<close>

theorem clean_normalises:
  assumes "dict_ok doc" and "map_of doc ''_id'' = Some (VObjectId h)"
  shows "map_of (clean doc) ''_id'' = None \<and>
         map_of (clean doc) ''id'' = Some (VStr h) \<and>
         (k \<noteq> ''_id'' \<and> k \<noteq> ''id'' \<longrightarrow>
            map_of (clean doc) k = map_option iso_value (map_of doc k))"
proof -
  let ?doc1 = "dict_set (dict_pop doc ''_id'') ''id'' (VStr h)"
  have ok: "dict_ok ?doc1"
    using assms(1) by (intro dict_ok_set dict_ok_pop) simp_all
  have "clean doc = clean_items ?doc1 ?doc1"
    using assms(2) by (simp add: clean_def dict_get_def Let_def)
  then have eq: "clean doc = map (\<lambda>kv. (fst kv, iso_value (snd kv))) ?doc1"
    using clean_items_map [OF ok] by simp
  show ?thesis
    unfolding eq map_of_map_value map_of_dict_set map_of_dict_pop
    by (simp add: iso_value_def)
qed

theorem clean_normalises_witness:
  "dict_ok demo_record \<and> map_of demo_record ''_id'' = Some (VObjectId ''01'') \<and>
   map_of (clean demo_record) ''_id'' = None \<and>
   map_of (clean demo_record) ''id'' = Some (VStr ''01'') \<and>
   map_of (clean demo_record) ''location'' =
     Some (VDict [(''lat'', VFloat 12), (''surveyed'', VStr ''2024-03-09T07:05:00+00:00'')])"
proof -
  have a: "dict_ok demo_record"
    by (simp add: dict_ok_def demo_record_def)
  have b: "map_of demo_record ''_id'' = Some (VObjectId ''01'')"
    by (simp add: demo_record_def)
  have c: "map_option iso_value (map_of demo_record ''location'') =
      Some (VDict [(''lat'', VFloat 12), (''surveyed'', VStr ''2024-03-09T07:05:00+00:00'')])"
    by (simp add: demo_record_def iso_value_def iso_leaf_def isoformat_demo_time)
  from clean_normalises [OF a b, of "''location''"] show ?thesis
    using a b c by simp
qed

text \<open>
  The claim as stated fails for a timestamp inside a list entry: the record comes back
  with that timestamp as it was stored.
\<close>

theorem clean_list_timestamp_counterexample:
  "clean demo_record =
     [(''scenario'', VStr ''dry''),
      (''collected_at'', VStr ''2024-03-09T07:05:00+00:00''),
      (''location'', VDict [(''lat'', VFloat 12), (''surveyed'', VStr ''2024-03-09T07:05:00+00:00'')]),
      (''files'', VList [VDict [(''uploaded_at'', VDatetime demo_time)]]),
      (''id'', VStr ''01'')]"
  by (simp add: clean_def demo_record_def dict_get_def dict_pop_def isoformat_demo_time)

subsection \<open>Successive calls\<close>

lemma alloc_all_frame:
  "alloc_all docs w = (refs, w') \<Longrightarrow>
   database w' = database w \<and> next_addr w \<le> next_addr w' \<and>
   length refs = length docs \<and> distinct refs \<and>
   (\<forall>a\<in>set refs. next_addr w \<le> a \<and> a < next_addr w') \<and>
   (\<forall>a<next_addr w. objects w' a = objects w a)"
proof (induction docs arbitrary: w refs w')
  case Nil
  then show ?case by simp
next
  case (Cons d ds)
  let ?w1 = "w\<lparr>objects := (objects w)(next_addr w := d), next_addr := Suc (next_addr w)\<rparr>"
  obtain refs1 w1' where r: "alloc_all ds ?w1 = (refs1, w1')"
    by (cases "alloc_all ds ?w1")
  with Cons.prems have eq: "refs = next_addr w # refs1" "w' = w1'"
    by simp_all
  from Cons.IH [OF r] show ?case
    unfolding eq by (auto simp: less_Suc_eq_le)
qed

lemma alloc_all_contents:
  "alloc_all docs w = (refs, w') \<Longrightarrow> map (objects w') refs = docs"
proof (induction docs arbitrary: w refs w')
  case Nil
  then show ?case by simp
next
  case (Cons d ds)
  let ?w1 = "w\<lparr>objects := (objects w)(next_addr w := d), next_addr := Suc (next_addr w)\<rparr>"
  obtain refs1 w1' where r: "alloc_all ds ?w1 = (refs1, w1')"
    by (cases "alloc_all ds ?w1")
  with Cons.prems have eq: "refs = next_addr w # refs1" "w' = w1'"
    by simp_all
  from alloc_all_frame [OF r] have "objects w1' (next_addr w) = d"
    by simp
  with Cons.IH [OF r] show ?case
    unfolding eq by simp
qed

lemma clean_all_frame:
  "database (clean_all refs w) = database w \<and> next_addr (clean_all refs w) = next_addr w"
  by (induction refs arbitrary: w) (simp_all add: clean_at_def)

lemma clean_all_other: "a \<notin> set refs \<Longrightarrow> objects (clean_all refs w) a = objects w a"
  by (induction refs arbitrary: w) (auto simp: clean_at_def)

lemma clean_all_contents:
  "distinct refs \<Longrightarrow> map (objects (clean_all refs w)) refs = map clean (map (objects w) refs)"
proof (induction refs arbitrary: w)
  case Nil
  then show ?case by simp
next
  case (Cons a refs)
  then have "a \<notin> set refs" and d: "distinct refs" by simp_all
  have head: "objects (clean_all refs (clean_at a w)) a = clean (objects w a)"
    using clean_all_other [OF \<open>a \<notin> set refs\<close>, of "clean_at a w"] by (simp add: clean_at_def)
  have tail: "map (objects (clean_at a w)) refs = map (objects w) refs"
    using \<open>a \<notin> set refs\<close> by (auto simp: clean_at_def)
  show ?case
    using head Cons.IH [OF d, of "clean_at a w"] tail by simp
qed

lemma list_samples_op_result:
  assumes "list_samples_op w sc limit = (r, w')"
  shows "answer w' r = list_samples (database w) sc limit \<and> database w' = database w \<and>
         next_addr w \<le> next_addr w' \<and> (\<forall>a<next_addr w. objects w' a = objects w a) \<and>
         (case r of Inl e \<Rightarrow> True | Inr x \<Rightarrow> \<forall>a\<in>set (item_refs x). a < next_addr w')"
proof (cases "get_documents (database w) ''watersample'' (scenario_filter sc) limit")
  case (Inl e)
  with assms show ?thesis
    by (auto simp: list_samples_op_def get_documents_op_def list_samples_def answer_def)
next
  case (Inr docs)
  obtain refs w1 where al: "alloc_all docs w = (refs, w1)"
    by (cases "alloc_all docs w")
  from assms Inr al have r: "r = Inr \<lparr>item_refs = refs, ref_count = length refs\<rparr>"
    and w': "w' = clean_all refs w1"
    by (simp_all add: list_samples_op_def get_documents_op_def)
  note fr = alloc_all_frame [OF al]
  from fr have dist: "distinct refs" and len: "length refs = length docs" by simp_all
  have "map (objects w') refs = map clean docs"
    using clean_all_contents [OF dist, of w1] alloc_all_contents [OF al] by (simp add: w')
  then have 1: "answer w' r = list_samples (database w) sc limit"
    by (simp add: answer_def r list_samples_def Inr len Let_def)
  have 2: "database w' = database w" "next_addr w \<le> next_addr w'" "next_addr w' = next_addr w1"
    using fr clean_all_frame [of refs w1] by (simp_all add: w')
  have 3: "\<forall>a<next_addr w. objects w' a = objects w a"
  proof (intro allI impI)
    fix a assume "a < next_addr w"
    then have "a \<notin> set refs" using fr by auto
    then show "objects w' a = objects w a"
      using clean_all_other [of a refs w1] fr \<open>a < next_addr w\<close> by (simp add: w')
  qed
  have 4: "\<forall>a\<in>set refs. a < next_addr w'"
    using 2 fr by simp
  show ?thesis
    using 1 2 3 4 by (simp add: r)
qed

text \<open>
  Rewriting in place is not repeatable on one object: a record that has been normalised
  has lost its \<^verbatim>\<open>_id\<close>, and normalising it again sets its \<^verbatim>\<open>id\<close> to null. That successive
  calls agree rests on each call working on objects of its own.
\<close>

lemma clean_twice_differs:
  "map_of (clean demo_record) ''id'' = Some (VStr ''01'') \<and>
   map_of (clean (clean demo_record)) ''id'' = Some VNull"
  by (simp add: clean_def demo_record_def dict_get_def dict_pop_def isoformat_demo_time)

lemma demo_dry_answer:
  "list_samples demo_store (Some ''dry'') None =
     Inr \<lparr>items = [[(''scenario'', VStr ''dry''), (''ph'', VFloat 7), (''id'', VStr ''04'')],
                   [(''scenario'', VStr ''dry''), (''ph'', VNull), (''id'', VStr ''05'')]],
          count = 2\<rparr>"
  by (simp add: list_samples_def get_documents_def scenario_filter_def matches_def demo_store_def
      demo_doc_def clean_def dict_get_def dict_pop_def)

text \<open>
  Claim C9. Two successive calls of the query operation with the same scenario and limit,
  against a store that no one has changed in between, return the same items, in order and
  in content. The operation rewrites the records it retrieved in place, but the records
  of each call are new objects: the second call leaves the store as it was and the
  answer of the first call as it read, and both answers read as the normalised records
  of the store.
\<close>

theorem query_idempotent:
  assumes "list_samples_op w sc limit = (r1, w1)"
    and "list_samples_op w1 sc limit = (r2, w2)"
  shows "answer w2 r2 = answer w1 r1 \<and> answer w2 r1 = answer w1 r1 \<and>
         database w2 = database w \<and>
         answer w1 r1 = list_samples (database w) sc limit"
proof -
  note a = list_samples_op_result [OF assms(1)]
  note b = list_samples_op_result [OF assms(2)]
  have same: "answer w2 r2 = answer w1 r1"
    using a b by simp
  have keep: "answer w2 r1 = answer w1 r1"
  proof (cases r1)
    case (Inl e)
    then show ?thesis by (simp add: answer_def)
  next
    case (Inr x)
    with a have "\<forall>r\<in>set (item_refs x). r < next_addr w1" by simp
    with b have "map (objects w2) (item_refs x) = map (objects w1) (item_refs x)"
      by simp
    with Inr show ?thesis by (simp add: answer_def)
  qed
  show ?thesis
    using same keep a b by simp
qed

theorem query_idempotent_witness:
  "list_samples_op demo_world (Some ''dry'') None = (fst demo_first, snd demo_first) \<and>
   list_samples_op (snd demo_first) (Some ''dry'') None = (fst demo_second, snd demo_second) \<and>
   fst demo_first = Inr \<lparr>item_refs = [0, 1], ref_count = 2\<rparr> \<and>
   fst demo_second = Inr \<lparr>item_refs = [2, 3], ref_count = 2\<rparr> \<and>
   answer (snd demo_second) (fst demo_second) =
     Inr \<lparr>items = [[(''scenario'', VStr ''dry''), (''ph'', VFloat 7), (''id'', VStr ''04'')],
                   [(''scenario'', VStr ''dry''), (''ph'', VNull), (''id'', VStr ''05'')]],
          count = 2\<rparr> \<and>
   answer (snd demo_second) (fst demo_first) = answer (snd demo_second) (fst demo_second) \<and>
   database (snd demo_second) = demo_store"
proof -
  have a: "list_samples_op demo_world (Some ''dry'') None = (fst demo_first, snd demo_first)"
    by (simp add: demo_first_def)
  have b: "list_samples_op (snd demo_first) (Some ''dry'') None =
      (fst demo_second, snd demo_second)"
    by (simp add: demo_second_def)
  have c: "database demo_world = demo_store"
    by (simp add: demo_world_def)
  have d: "fst demo_first = Inr \<lparr>item_refs = [0, 1], ref_count = 2\<rparr> \<and>
      next_addr (snd demo_first) = 2 \<and> database (snd demo_first) = demo_store"
    by (simp add: demo_first_def list_samples_op_def get_documents_op_def get_documents_def
        scenario_filter_def matches_def demo_world_def demo_store_def demo_doc_def clean_at_def)
  have e: "fst demo_second = Inr \<lparr>item_refs = [2, 3], ref_count = 2\<rparr>"
    using d
    by (simp add: demo_second_def list_samples_op_def get_documents_op_def get_documents_def
        scenario_filter_def matches_def demo_store_def demo_doc_def split: prod.splits)
  from query_idempotent [OF a b] show ?thesis
    using a b c d e demo_dry_answer by simp
qed

section \<open>Properties of validation and ingestion\<close>

lemma errors_Inr: "errors (Inr a) = []"
  by (simp add: errors_def)

lemma errors_Inl: "errors (Inl es) = es"
  by (simp add: errors_def)

lemma errors_ap: "errors (ap f x) = errors f @ errors x"
  by (simp add: ap_def errors_def split: sum.splits)

lemma validate_WaterSample_errors: "errors (validate_WaterSample c) = violations c"
  by (simp add: validate_WaterSample_def violations_def errors_ap errors_Inr)

lemma validate_WaterSample_fails:
  assumes "violations c \<noteq> []"
  shows "validate_WaterSample c = Inl (violations c)"
proof (cases "validate_WaterSample c")
  case (Inl es)
  with validate_WaterSample_errors [of c] show ?thesis
    by (simp add: errors_def)
next
  case (Inr s)
  with validate_WaterSample_errors [of c] assms show ?thesis
    by (simp add: errors_def)
qed

lemma post_samples_fails:
  "violations c \<noteq> [] \<Longrightarrow> post_samples db c = (Inl (ValidationError (violations c)), db)"
  by (simp add: post_samples_def validate_WaterSample_fails)

lemma ph_out_of_range:
  assumes "map_of c ''ph'' = Some v" and "number v = Some x" and "x < 0 \<or> 14 < x"
  shows "errors (optional ''ph'' (float_value (Some 0) (Some 14)) c) =
           [([Key ''ph''], if x < 0 then greater_than_equal 0 else less_than_equal 14)]"
proof -
  have "v \<noteq> VNull" using assms(2) by (auto simp: number_VNull)
  then have "optional ''ph'' (float_value (Some 0) (Some 14)) c =
      at_loc (Key ''ph'') (map_sum id Some (float_value (Some 0) (Some 14) v))"
    using assms(1) by (cases v) (simp_all add: optional_def)
  then show ?thesis
    using assms(2,3) by (auto simp: float_value_number in_bounds_def at_loc_def errors_def)
qed


lemma hexfill_demo: "hexfill 24 8 = ''000000000000000000000008''"
  by code_simp

lemma demo_valid:
  "validate_WaterSample (demo_candidate [] (VFloat 7)) =
     Inr \<lparr>scenario = [], site_name = None, collected_at = demo_time,
          location = \<lparr>lat = 12, lon = 77\<rparr>, ph = Some 7, dissolved_oxygen_mg_l = None,
          turbidity_ntu = None, metals_mg_l = None, notes_text = None, files = None\<rparr>"
  by (simp add: validate_WaterSample_def demo_candidate_def required_def optional_def at_loc_def
      str_value_def Location_value_def float_value_VFloat float_value_VInt_small in_bounds_def datetime_value_VDatetime ap_def
      make_WaterSample_def)

text \<open>
  Claim C1. For every candidate record whose pH is a number outside the interval from 0
  to 14, the ingestion operation signals a validation error that names the pH field and
  the violated bound, and the store is left as it was: no record is persisted.
\<close>

theorem ingestion_rejects_ph_out_of_range:
  assumes "map_of c ''ph'' = Some v" and "number v = Some x" and "x < 0 \<or> 14 < x"
  shows "\<exists>es. post_samples db c = (Inl (ValidationError es), db) \<and>
           ([Key ''ph''], if x < 0 then greater_than_equal 0 else less_than_equal 14) \<in> set es"
proof -
  have "([Key ''ph''], if x < 0 then greater_than_equal 0 else less_than_equal 14)
          \<in> set (violations c)"
    using ph_out_of_range [OF assms] by (simp add: violations_def)
  moreover from this have "violations c \<noteq> []" by auto
  ultimately show ?thesis
    using post_samples_fails [of c db] by blast
qed

theorem ingestion_rejects_ph_out_of_range_witness:
  "map_of (demo_candidate ''dry'' (VFloat 15)) ''ph'' = Some (VFloat 15) \<and>
   number (VFloat 15) = Some 15 \<and>
   post_samples demo_store (demo_candidate ''dry'' (VFloat 15)) =
     (Inl (ValidationError [([Key ''ph''], less_than_equal 14)]), demo_store)"
proof -
  have a: "map_of (demo_candidate ''dry'' (VFloat 15)) ''ph'' = Some (VFloat 15)"
    by (simp add: demo_candidate_def)
  have b: "number (VFloat 15) = Some 15"
    by (simp add: number_VFloat)
  have c: "(15::real) < 0 \<or> (14::real) < 15"
    by simp
  have d: "violations (demo_candidate ''dry'' (VFloat 15)) = [([Key ''ph''], less_than_equal 14)]"
    by (simp add: violations_def demo_candidate_def required_def optional_def at_loc_def
        errors_def str_value_def Location_value_def float_value_VFloat float_value_VInt_small in_bounds_def datetime_value_VDatetime
        ap_def)
  from ingestion_rejects_ph_out_of_range [OF a b c, of demo_store] show ?thesis
    using a b d post_samples_fails [of "demo_candidate ''dry'' (VFloat 15)" demo_store] by simp
qed


















text \<open>
  Claim C7, as the code has it. The scenario field is required and is a string, with no
  bound on its length. For every candidate record without the scenario field, validation
  fails and the ingestion operation signals a validation error that names the field as
  missing, leaving the store as it was; a scenario that is a string, the empty string too,
  satisfies the constraint of the field.
\<close>

theorem scenario_required:
  "(map_of c ''scenario'' = None \<longrightarrow>
      (\<exists>es. post_samples db c = (Inl (ValidationError es), db) \<and>
            ([Key ''scenario''], missing) \<in> set es)) \<and>
   (map_of c ''scenario'' = Some (VStr s) \<longrightarrow> required ''scenario'' str_value c = Inr s)"
proof (intro conjI impI)
  assume none: "map_of c ''scenario'' = None"
  then have "([Key ''scenario''], missing) \<in> set (violations c)"
    by (simp add: violations_def required_def errors_def)
  moreover from this have "violations c \<noteq> []" by auto
  ultimately show "\<exists>es. post_samples db c = (Inl (ValidationError es), db) \<and>
      ([Key ''scenario''], missing) \<in> set es"
    using post_samples_fails [of c db] by blast
next
  assume "map_of c ''scenario'' = Some (VStr s)"
  then show "required ''scenario'' str_value c = Inr s"
    by (simp add: required_def str_value_def at_loc_def)
qed

theorem scenario_required_witness:
  "map_of ([] :: dict) ''scenario'' = None \<and>
   post_samples demo_store [] =
     (Inl (ValidationError [([Key ''scenario''], missing), ([Key ''collected_at''], missing),
                            ([Key ''location''], missing)]), demo_store) \<and>
   map_of (demo_candidate [] (VFloat 7)) ''scenario'' = Some (VStr []) \<and>
   required ''scenario'' str_value (demo_candidate [] (VFloat 7)) = Inr []"
proof -
  have a: "violations [] = [([Key ''scenario''], missing), ([Key ''collected_at''], missing),
                            ([Key ''location''], missing)]"
    by (simp add: violations_def required_def optional_def errors_def)
  have b: "map_of (demo_candidate [] (VFloat 7)) ''scenario'' = Some (VStr [])"
    by (simp add: demo_candidate_def)
  from scenario_required [of "[]" demo_store "[]"]
    scenario_required [of "demo_candidate [] (VFloat 7)" demo_store "[]"]
  show ?thesis
    using a b post_samples_fails [of "[]" demo_store] by simp
qed

text \<open>
  The claim as stated fails: a candidate whose scenario is the empty string, and which is
  valid otherwise, passes validation and is persisted.
\<close>

theorem empty_scenario_counterexample:
  "map_of (demo_candidate [] (VFloat 7)) ''scenario'' = Some (VStr []) \<and>
   fst (post_samples demo_store (demo_candidate [] (VFloat 7))) =
     Inr \<lparr>ingest_id = ''000000000000000000000008'', status = ''created''\<rparr> \<and>
   length (collections (snd (post_samples demo_store (demo_candidate [] (VFloat 7))))
             ''watersample'') = 8"
proof -
  have "map_of (demo_candidate [] (VFloat 7)) ''scenario'' = Some (VStr [])"
    by (simp add: demo_candidate_def)
  moreover have
    "fst (post_samples demo_store (demo_candidate [] (VFloat 7))) =
       Inr \<lparr>ingest_id = ''000000000000000000000008'', status = ''created''\<rparr> \<and>
     length (collections (snd (post_samples demo_store (demo_candidate [] (VFloat 7))))
               ''watersample'') = 8"
    by (simp add: post_samples_def demo_valid create_sample_def create_document_def hexfill_demo
        demo_store_def Let_def)
  ultimately show ?thesis by simp
qed

section \<open>Properties of the summary aggregation\<close>

lemma numbers_Cons:
  "numbers (v # vs) = (case number v of None \<Rightarrow> numbers vs | Some x \<Rightarrow> x # numbers vs)"
  by (simp add: numbers_def split: option.splits)

lemma numbers_Nil: "numbers [] = []"
  by (simp add: numbers_def)

lemma foldl_avg_step:
  "foldl (avg_step f) (s0, n0) g =
     (s0 + sum_list (numbers (field_values f g)), n0 + length (numbers (field_values f g)))"
proof (induction g arbitrary: s0 n0)
  case Nil
  then show ?case by (simp add: field_values_def numbers_Nil)
next
  case (Cons d g)
  show ?case
  proof (cases "number (dict_get d f)")
    case None
    then show ?thesis
      using Cons.IH [of s0 n0] by (simp add: avg_step_def field_values_def numbers_Cons)
  next
    case (Some x)
    then show ?thesis
      using Cons.IH [of "s0 + x" "Suc n0"]
      by (simp add: avg_step_def field_values_def numbers_Cons add.assoc)
  qed
qed

lemma accumulate_avg:
  "accumulate (Avg_field f) g =
     (case mean_present (field_values f g) of None \<Rightarrow> VNull | Some x \<Rightarrow> VFloat x)"
  by (simp add: accumulate_def foldl_avg_step mean_present_def Let_def)

lemma foldl_count: "foldl (\<lambda>n d. n + 1) (n0::int) g = n0 + int (length g)"
  by (induction g arbitrary: n0) simp_all

lemma accumulate_count: "accumulate (Sum_const 1) g = VInt (int (length g))"
  by (simp add: accumulate_def foldl_count)

lemma accumulate_avg_opt:
  "accumulate (Avg_field f) g = opt_value VFloat (mean_present (field_values f g))"
  by (simp add: accumulate_avg opt_value_def)

lemma project_group:
  "project [(''_id'', Exclude), (''scenario'', Field_ref ''_id''), (''count'', Include),
            (''avg_ph'', Include), (''avg_do'', Include), (''avg_turbidity'', Include)]
     [(''_id'', k), (''count'', c), (''avg_ph'', a), (''avg_do'', b), (''avg_turbidity'', t)] =
   [(''count'', c), (''avg_ph'', a), (''avg_do'', b), (''avg_turbidity'', t), (''scenario'', k)]"
  by (simp add: project_def)

lemma optional_float:
  "map_of r k = Some (opt_value VFloat a) \<Longrightarrow> optional k (float_value None None) r = Inr a"
  by (cases a) (simp_all add: optional_def float_value_VFloat in_bounds_def at_loc_def opt_value_def)

lemma ScenarioSummary_value_group:
  "ScenarioSummary_value
     [(''count'', VInt n), (''avg_ph'', opt_value VFloat a), (''avg_do'', opt_value VFloat b),
      (''avg_turbidity'', opt_value VFloat t), (''scenario'', VStr s)] =
   Inr \<lparr>s_scenario = s, s_count = n, avg_ph = a, avg_do = b, avg_turbidity = t\<rparr>"
proof -
  let ?r = "[(''count'', VInt n), (''avg_ph'', opt_value VFloat a), (''avg_do'', opt_value VFloat b),
      (''avg_turbidity'', opt_value VFloat t), (''scenario'', VStr s)]"
  have 1: "required ''scenario'' str_value ?r = Inr s"
    by (simp add: required_def str_value_def at_loc_def)
  have 2: "required ''count'' int_value ?r = Inr n"
    by (simp add: required_def int_value_VInt at_loc_def)
  have 3: "optional ''avg_ph'' (float_value None None) ?r = Inr a"
    by (rule optional_float) simp
  have 4: "optional ''avg_do'' (float_value None None) ?r = Inr b"
    by (rule optional_float) simp
  have 5: "optional ''avg_turbidity'' (float_value None None) ?r = Inr t"
    by (rule optional_float) simp
  show ?thesis
    unfolding ScenarioSummary_value_def 1 2 3 4 5 by (simp add: ap_def)
qed

lemma aggregate_summary_pipeline:
  "available db \<Longrightarrow>
   aggregate db ''watersample'' summary_pipeline =
     Inr (map (group_result (collections db ''watersample''))
            (group_keys (map (\<lambda>d. dict_get d ''scenario'') (collections db ''watersample''))))"
  by (simp add: aggregate_def summary_pipeline_def run_stage_def project_group accumulate_avg_opt
      accumulate_count group_result_def Let_def comp_def)

lemma ScenarioSummary_value_result:
  "ScenarioSummary_value (group_result (collections db ''watersample'') (VStr s)) =
     Inr (summary_of db s)"
  by (simp add: group_result_def Let_def ScenarioSummary_value_group summary_of_def
      scenario_group_def)

lemma summaries_results:
  "list_all (\<lambda>k. scenario_name k \<noteq> None) ks \<Longrightarrow>
   summaries (map (group_result (collections db ''watersample'')) ks) =
     Inr (map (summary_of db) (List.map_filter scenario_name ks))"
proof (induction ks)
  case Nil
  then show ?case by simp
next
  case (Cons k ks)
  then obtain s where k: "k = VStr s"
    by (cases k) (simp_all add: scenario_name_def)
  from Cons have "summaries (map (group_result (collections db ''watersample'')) ks) =
      Inr (map (summary_of db) (List.map_filter scenario_name ks))"
    by simp
  moreover have "scenario_name (VStr s) = Some s"
    by (simp add: scenario_name_def)
  ultimately show ?case
    by (simp add: k ScenarioSummary_value_result)
qed

lemma set_group_keys: "set (group_keys ks) = set ks"
  by (induction ks) auto

lemma group_keys_named:
  assumes "list_all has_scenario docs"
  shows "list_all (\<lambda>k. scenario_name k \<noteq> None)
           (group_keys (map (\<lambda>d. dict_get d ''scenario'') docs))"
proof -
  have "\<forall>k\<in>set (map (\<lambda>d. dict_get d ''scenario'') docs). scenario_name k \<noteq> None"
    using assms
    by (auto simp: list_all_iff has_scenario_def scenario_name_def split: pyval.splits)
  then show ?thesis
    by (simp add: list_all_iff set_group_keys)
qed

lemma numbers_all_null: "list_all (\<lambda>v. v = VNull) vs \<Longrightarrow> numbers vs = []"
  by (induction vs) (simp_all add: numbers_Nil numbers_Cons number_VNull)

lemma demo_scenario_names: "scenario_names demo_store = [''a'', ''dry'', ''monsoon'']"
  by (simp add: scenario_names_def demo_store_def demo_doc_def dict_get_def scenario_name_def)

lemma demo_summary_a:
  "summary_of demo_store ''a'' =
     \<lparr>s_scenario = ''a'', s_count = 3, avg_ph = Some 7, avg_do = None, avg_turbidity = None\<rparr>"
  by (simp add: summary_of_def scenario_group_def demo_store_def demo_doc_def dict_get_def
      field_values_def mean_present_def numbers_Cons numbers_Nil number_VFloat number_VInt_small
      number_VNull)

lemma demo_summary_dry:
  "summary_of demo_store ''dry'' =
     \<lparr>s_scenario = ''dry'', s_count = 2, avg_ph = Some 7, avg_do = None, avg_turbidity = None\<rparr>"
  by (simp add: summary_of_def scenario_group_def demo_store_def demo_doc_def dict_get_def
      field_values_def mean_present_def numbers_Cons numbers_Nil number_VFloat number_VInt_small
      number_VNull)

lemma demo_summary_monsoon:
  "summary_of demo_store ''monsoon'' =
     \<lparr>s_scenario = ''monsoon'', s_count = 2, avg_ph = Some 7, avg_do = None,
      avg_turbidity = None\<rparr>"
  by (simp add: summary_of_def scenario_group_def demo_store_def demo_doc_def dict_get_def
      field_values_def mean_present_def numbers_Cons numbers_Nil number_VFloat number_VInt_small
      number_VNull)

text \<open>
  Claim C3. For every group of records of the collection that share a scenario, the
  summary aggregation answers with the count of the group and with \<open>avg_ph\<close>, \<open>avg_do\<close>
  and \<open>avg_turbidity\<close> equal to the arithmetic mean of only the values of the field that
  are present in the group, null and absent values left out; when every member of the
  group has a null or absent value for a field, that average is null, neither zero nor
  an error. The records carry a scenario name, as validation requires. For pH values 6,
  8 and null in scenario \<open>a\<close> the count is 3 and \<open>avg_ph\<close> is 7.
\<close>

theorem summaries_are_group_means:
  assumes "available db" and "list_all has_scenario (collections db ''watersample'')"
  shows "get_summaries db = Inr (map (summary_of db) (scenario_names db)) \<and>
         (list_all (\<lambda>d. dict_get d f = VNull) (scenario_group db s) \<longrightarrow>
            mean_present (field_values f (scenario_group db s)) = None)"
proof
  show "get_summaries db = Inr (map (summary_of db) (scenario_names db))"
    using summaries_results [OF group_keys_named [OF assms(2)], of db]
    by (simp add: get_summaries_def aggregate_summary_pipeline [OF assms(1)] scenario_names_def)
  show "list_all (\<lambda>d. dict_get d f = VNull) (scenario_group db s) \<longrightarrow>
      mean_present (field_values f (scenario_group db s)) = None"
  proof
    assume "list_all (\<lambda>d. dict_get d f = VNull) (scenario_group db s)"
    then have "list_all (\<lambda>v. v = VNull) (field_values f (scenario_group db s))"
      by (simp add: field_values_def list_all_iff)
    then show "mean_present (field_values f (scenario_group db s)) = None"
      by (simp add: mean_present_def numbers_all_null)
  qed
qed

theorem summaries_are_group_means_witness:
  "available demo_store \<and> list_all has_scenario (collections demo_store ''watersample'') \<and>
   list_all (\<lambda>d. dict_get d ''dissolved_oxygen_mg_l'' = VNull) (scenario_group demo_store ''a'') \<and>
   get_summaries demo_store =
     Inr [\<lparr>s_scenario = ''a'', s_count = 3, avg_ph = Some 7, avg_do = None,
           avg_turbidity = None\<rparr>,
          \<lparr>s_scenario = ''dry'', s_count = 2, avg_ph = Some 7, avg_do = None,
           avg_turbidity = None\<rparr>,
          \<lparr>s_scenario = ''monsoon'', s_count = 2, avg_ph = Some 7, avg_do = None,
           avg_turbidity = None\<rparr>] \<and>
   mean_present (field_values ''dissolved_oxygen_mg_l'' (scenario_group demo_store ''a'')) = None"
proof -
  have a: "available demo_store"
    by (simp add: demo_store_def)
  have b: "list_all has_scenario (collections demo_store ''watersample'')"
    by (simp add: demo_store_def demo_doc_def has_scenario_def dict_get_def)
  have c: "list_all (\<lambda>d. dict_get d ''dissolved_oxygen_mg_l'' = VNull)
             (scenario_group demo_store ''a'')"
    by (simp add: scenario_group_def demo_store_def demo_doc_def dict_get_def)
  from summaries_are_group_means [OF a b, of "''dissolved_oxygen_mg_l''" "''a''"]
  show ?thesis
    using a b c
    by (simp add: demo_scenario_names demo_summary_a demo_summary_dry demo_summary_monsoon)
qed

end
